theory Spec2Isabelle
  imports Main "HOL-Library.Word"
begin

section \<open>Go strings, UTF-8 and the formatting helpers of the standard library\<close>

text \<open>
  A Go \<^verbatim>\<open>string\<close> and a \<^verbatim>\<open>[]byte\<close> are sequences of bytes; both are modelled by
  \<^typ>\<open>string\<close> (a list of 8-bit characters), and \<^verbatim>\<open>len\<close> is \<^const>\<open>length\<close>.
  The functions of this section are not code of the plugin: they model the parts of
  \<^verbatim>\<open>unicode/utf8\<close>, \<^verbatim>\<open>unicode/utf16\<close>, \<^verbatim>\<open>strconv\<close> and \<^verbatim>\<open>fmt\<close> that the plugin's
  calls reach, from the documented behaviour of those packages.
\<close>

definition byte :: "char \<Rightarrow> nat" where
  "byte c = of_char c"

definition RuneError :: nat where
  "RuneError = 0xFFFD"

text \<open>
  \<^verbatim>\<open>utf8.DecodeRune\<close>: the first rune of the input and its width in bytes;
  \<open>(RuneError, 0)\<close> on empty input and \<open>(RuneError, 1)\<close> on an invalid encoding.
  The tables \<^verbatim>\<open>first\<close> and \<^verbatim>\<open>acceptRanges\<close> are written out as comparisons.
\<close>

definition DecodeRune :: "string \<Rightarrow> nat \<times> nat" where
  "DecodeRune p =
     (case p of
        [] \<Rightarrow> (RuneError, 0)
      | c0 # rest \<Rightarrow>
          (let p0 = byte c0 in
           if p0 < 0x80 then (p0, 1)
           else if p0 < 0xC2 \<or> 0xF4 < p0 then (RuneError, 1)
           else
             (let sz = (if p0 < 0xE0 then 2 else if p0 < 0xF0 then 3 else (4::nat));
                  lo = (if p0 = 0xE0 then 0xA0 else if p0 = 0xF0 then 0x90 else 0x80);
                  hi = (if p0 = 0xED then 0x9F else if p0 = 0xF4 then 0x8F else 0xBF)
              in if length p < sz then (RuneError, 1)
                 else
                   (let b1 = byte (p ! 1) in
                    if b1 < lo \<or> hi < b1 then (RuneError, 1)
                    else if sz \<le> 2 then ((p0 mod 32) * 64 + b1 mod 64, 2)
                    else
                      (let b2 = byte (p ! 2) in
                       if b2 < 0x80 \<or> 0xBF < b2 then (RuneError, 1)
                       else if sz \<le> 3 then
                         ((p0 mod 16) * 4096 + (b1 mod 64) * 64 + b2 mod 64, 3)
                       else
                         (let b3 = byte (p ! 3) in
                          if b3 < 0x80 \<or> 0xBF < b3 then (RuneError, 1)
                          else ((p0 mod 8) * 262144 + (b1 mod 64) * 4096
                                  + (b2 mod 64) * 64 + b3 mod 64, 4)))))))"

text \<open>\<^verbatim>\<open>utf8.EncodeRune\<close>: surrogates and values past U+10FFFF are written as U+FFFD.\<close>

definition EncodeRune :: "nat \<Rightarrow> string" where
  "EncodeRune r =
     (if r \<le> 0x7F then [char_of r]
      else if r \<le> 0x7FF then [char_of (0xC0 + r div 64), char_of (0x80 + r mod 64)]
      else if 0x10FFFF < r \<or> (0xD800 \<le> r \<and> r \<le> 0xDFFF) then [CHR 0xEF, CHR 0xBF, CHR 0xBD]
      else if r \<le> 0xFFFF then
        [char_of (0xE0 + r div 4096), char_of (0x80 + (r div 64) mod 64), char_of (0x80 + r mod 64)]
      else
        [char_of (0xF0 + r div 262144), char_of (0x80 + (r div 4096) mod 64),
         char_of (0x80 + (r div 64) mod 64), char_of (0x80 + r mod 64)])"

text \<open>\<^verbatim>\<open>utf8.ValidString\<close>: no position decodes to \<open>(RuneError, 1)\<close>.\<close>

function ValidString :: "string \<Rightarrow> bool" where
  "ValidString [] = True"
| "ValidString (c # cs) =
     (if DecodeRune (c # cs) = (RuneError, 1) then False
      else ValidString (drop (snd (DecodeRune (c # cs))) (c # cs)))"
  by pat_completeness auto

lemma DecodeRune_width: "p \<noteq> [] \<Longrightarrow> 1 \<le> snd (DecodeRune p) \<and> snd (DecodeRune p) \<le> 4"
  by (cases p) (simp_all add: DecodeRune_def Let_def)

termination ValidString
proof (relation "measure length")
  show "wf (measure length)" by simp
next
  fix c :: char and cs :: string
  have "1 \<le> snd (DecodeRune (c # cs))"
    using DecodeRune_width [of "c # cs"] by simp
  then show "(drop (snd (DecodeRune (c # cs))) (c # cs), c # cs) \<in> measure length"
    by simp
qed

declare ValidString.simps [simp del]

text \<open>
  The coercion to valid UTF-8 that \<^verbatim>\<open>encoding/json\<close> applies to a string, on writing and
  on reading: every byte at which no valid encoding starts becomes U+FFFD.
\<close>

function coerceUTF8 :: "string \<Rightarrow> string" where
  "coerceUTF8 [] = []"
| "coerceUTF8 (c # cs) =
     (if DecodeRune (c # cs) = (RuneError, 1) then [CHR 0xEF, CHR 0xBF, CHR 0xBD] @ coerceUTF8 cs
      else take (snd (DecodeRune (c # cs))) (c # cs)
             @ coerceUTF8 (drop (snd (DecodeRune (c # cs))) (c # cs)))"
  by pat_completeness auto

termination coerceUTF8
proof (relation "measure length")
  show "wf (measure length)" by simp
next
  fix c :: char and cs :: string
  show "(cs, c # cs) \<in> measure length" by simp
next
  fix c :: char and cs :: string
  have "1 \<le> snd (DecodeRune (c # cs))"
    using DecodeRune_width [of "c # cs"] by simp
  then show "(drop (snd (DecodeRune (c # cs))) (c # cs), c # cs) \<in> measure length"
    by simp
qed

declare coerceUTF8.simps [simp del]

text \<open>\<^verbatim>\<open>strconv.FormatInt(i, 10)\<close> on an \<^verbatim>\<open>int64\<close>.\<close>

definition digit :: "nat \<Rightarrow> char" where
  "digit d = char_of (48 + d)"

function FormatUint :: "nat \<Rightarrow> string" where
  "FormatUint n = (if n < 10 then [digit n] else FormatUint (n div 10) @ [digit (n mod 10)])"
  by pat_completeness auto

termination FormatUint
  by (relation "measure id") auto

declare FormatUint.simps [simp del]

definition FormatInt :: "64 word \<Rightarrow> string" where
  "FormatInt i = (if sint i < 0 then CHR ''-'' # FormatUint (nat (- sint i)) else FormatUint (nat (sint i)))"

text \<open>
  \<^verbatim>\<open>fmt.Sprintf\<close> for formats whose only verb is \<^verbatim>\<open>%s\<close> and whose operands are
  strings, as the plugin's two formats are: every other byte is copied, \<^verbatim>\<open>%%\<close> is a
  percent sign, and a verb with no operand left prints \<^verbatim>\<open>%!s(MISSING)\<close>. What Go
  prints for another verb and for operands left over (\<^verbatim>\<open>%!(EXTRA ...)\<close>) is outside
  this model: the first is marked \<^verbatim>\<open>(BADVERB)\<close>, the second dropped.
\<close>

fun Sprintf :: "string \<Rightarrow> string list \<Rightarrow> string" where
  "Sprintf [] args = []"
| "Sprintf [c] args = (if c = CHR ''%'' then ''%!(NOVERB)'' else [c])"
| "Sprintf (c # d # fmt) args =
     (if c = CHR ''%'' then
        (if d = CHR ''s'' then
           (case args of
              [] \<Rightarrow> ''%!s(MISSING)'' @ Sprintf fmt []
            | a # as \<Rightarrow> a @ Sprintf fmt as)
         else if d = CHR ''%'' then CHR ''%'' # Sprintf fmt args
         else ''%!'' @ [d] @ ''(BADVERB)'' @ Sprintf fmt args)
      else c # Sprintf (d # fmt) args)"

section \<open>Data of the plugin\<close>

text \<open>The structs of the server's two source files, field by field.\<close>

record UserInfo =
  UserID :: string
  Activated :: bool
  SourceLanguage :: string
  TargetLanguage :: string

record TranslatedMessage =
  ID :: string
  PostID :: string
  SourceLanguage :: string
  SourceText :: string
  TargetLanguage :: string
  TranslatedText :: string
  UpdateAt :: "64 word"

record APIErrorResponse =
  ID :: string
  Message :: string
  StatusCode :: nat

text \<open>
  \<^verbatim>\<open>model.Post\<close> of the host platform: the fields the plugin reads or writes
  (\<^verbatim>\<open>UserId\<close>, \<^verbatim>\<open>Message\<close>, \<^verbatim>\<open>UpdateAt\<close>); every other field is carried along in the
  record's extension.
\<close>

record Post =
  UserId :: string
  Message :: string
  UpdateAt :: "64 word"

text \<open>The zero value of \<^verbatim>\<open>UserInfo\<close> (\<^verbatim>\<open>var userInfo UserInfo\<close>).\<close>

definition zeroUserInfo :: UserInfo where
  "zeroUserInfo = \<lparr>UserID = [], Activated = False, SourceLanguage = [], TargetLanguage = []\<rparr>"

definition StatusOK :: nat where "StatusOK = 200"
definition StatusBadRequest :: nat where "StatusBadRequest = 400"
definition StatusUnauthorized :: nat where "StatusUnauthorized = 401"
definition StatusNotFound :: nat where "StatusNotFound = 404"
definition StatusNotImplemented :: nat where "StatusNotImplemented = 501"

definition apiErrorNoRecordFound :: string where
  "apiErrorNoRecordFound = ''no_record_found''"

text \<open>
  Modelled from the spec: the constants \<^verbatim>\<open>autoLanguage\<close> and \<^verbatim>\<open>enLanguage\<close> are declared
  in a file of the repository that is not among the sources. The spec names the sentinel
  \<^verbatim>\<open>auto\<close> and the default target \<^verbatim>\<open>en\<close>; \<^verbatim>\<open>getGo\<close> compares with the literal
  \<^verbatim>\<open>"auto"\<close> for the same purpose.
\<close>

definition autoLanguage :: string where
  "autoLanguage = ''auto''"

definition enLanguage :: string where
  "enLanguage = ''en''"

section \<open>The \<^verbatim>\<open>encoding/json\<close> package, as far as the plugin's structs reach it\<close>

subsection \<open>Encoding\<close>

definition hex :: "nat \<Rightarrow> char" where
  "hex n = ''0123456789abcdef'' ! n"

definition backslash :: char where "backslash = CHR 0x5C"
definition dquote :: char where "dquote = CHR 0x22"

text \<open>
  \<^verbatim>\<open>htmlSafeSet\<close>: the ASCII bytes \<^verbatim>\<open>json.Marshal\<close> copies unescaped. Control bytes, the
  double quote, the backslash and the HTML bytes \<^verbatim>\<open>&\<close>, \<^verbatim>\<open><\<close>, \<^verbatim>\<open>>\<close> are not in it.
\<close>

definition htmlSafe :: "char \<Rightarrow> bool" where
  "htmlSafe c \<longleftrightarrow>
     0x20 \<le> byte c \<and> byte c < 0x80 \<and> c \<noteq> dquote \<and> c \<noteq> backslash
     \<and> c \<noteq> CHR ''&'' \<and> c \<noteq> CHR ''<'' \<and> c \<noteq> CHR ''>''"

text \<open>
  One ASCII byte of a string, as \<^verbatim>\<open>appendString\<close> writes it. (Go releases before 1.22
  write \<^verbatim>\<open>\u0008\<close> and \<^verbatim>\<open>\u000c\<close> where later ones write \<^verbatim>\<open>\b\<close> and \<^verbatim>\<open>\f\<close>; both
  decode to the same byte.)
\<close>

definition escapeByte :: "char \<Rightarrow> string" where
  "escapeByte c =
     (if htmlSafe c then [c]
      else if c = backslash \<or> c = dquote then [backslash, c]
      else if byte c = 8 then [backslash, CHR ''b'']
      else if byte c = 12 then [backslash, CHR ''f'']
      else if byte c = 10 then [backslash, CHR ''n'']
      else if byte c = 13 then [backslash, CHR ''r'']
      else if byte c = 9 then [backslash, CHR ''t'']
      else [backslash, CHR ''u'', CHR ''0'', CHR ''0'', hex (byte c div 16), hex (byte c mod 16)])"

text \<open>
  The body of \<^verbatim>\<open>appendString\<close> between the quotes: invalid UTF-8 becomes the escape
  of U+FFFD (a backslash, \<^verbatim>\<open>ufffd\<close>), U+2028 and U+2029 are escaped, every other multi-byte rune is copied.
\<close>

function encodeRunes :: "string \<Rightarrow> string" where
  "encodeRunes [] = []"
| "encodeRunes (c # cs) =
     (if byte c < 0x80 then escapeByte c @ encodeRunes cs
      else
        (let r = fst (DecodeRune (c # cs)); size = snd (DecodeRune (c # cs)) in
         if r = RuneError \<and> size = 1 then
           [backslash, CHR ''u'', CHR ''f'', CHR ''f'', CHR ''f'', CHR ''d''] @ encodeRunes cs
         else if r = 0x2028 \<or> r = 0x2029 then
           [backslash, CHR ''u'', CHR ''2'', CHR ''0'', CHR ''2'', hex (r mod 16)]
             @ encodeRunes (drop size (c # cs))
         else take size (c # cs) @ encodeRunes (drop size (c # cs))))"
  by pat_completeness auto

termination encodeRunes
proof (relation "measure length")
  show "wf (measure length)" by simp
next
  fix c :: char and cs :: string
  show "(cs, c # cs) \<in> measure length" by simp
next
  fix c :: char and cs :: string
  show "(cs, c # cs) \<in> measure length" by simp
next
  fix c :: char and cs :: string and r size :: nat
  assume "size = snd (DecodeRune (c # cs))"
  moreover have "1 \<le> snd (DecodeRune (c # cs))"
    using DecodeRune_width [of "c # cs"] by simp
  ultimately show "(drop size (c # cs), c # cs) \<in> measure length" by simp
next
  fix c :: char and cs :: string and r size :: nat
  assume "size = snd (DecodeRune (c # cs))"
  moreover have "1 \<le> snd (DecodeRune (c # cs))"
    using DecodeRune_width [of "c # cs"] by simp
  ultimately show "(drop size (c # cs), c # cs) \<in> measure length" by simp
qed

declare encodeRunes.simps [simp del]

definition appendString :: "string \<Rightarrow> string" where
  "appendString s = dquote # encodeRunes s @ [dquote]"

definition encodeBool :: "bool \<Rightarrow> string" where
  "encodeBool b = (if b then ''true'' else ''false'')"

text \<open>
  \<^verbatim>\<open>json.Marshal\<close> of a \<^verbatim>\<open>UserInfo\<close> and of a \<^verbatim>\<open>TranslatedMessage\<close>: the fields in
  declaration order under their \<^verbatim>\<open>json\<close> tags. Marshalling these struct types cannot
  fail; the result keeps Go's \<^verbatim>\<open>([]byte, error)\<close> shape as a sum.
\<close>

definition Marshal_UserInfo :: "UserInfo \<Rightarrow> string + string" where
  "Marshal_UserInfo u =
     Inr (''{'' @ appendString ''user_id'' @ '':'' @ appendString (UserID u)
        @ '','' @ appendString ''activated'' @ '':'' @ encodeBool (Activated u)
        @ '','' @ appendString ''source_language'' @ '':'' @ appendString (UserInfo.SourceLanguage u)
        @ '','' @ appendString ''target_language'' @ '':'' @ appendString (UserInfo.TargetLanguage u)
        @ ''}'')"

definition Marshal_TranslatedMessage :: "TranslatedMessage \<Rightarrow> string + string" where
  "Marshal_TranslatedMessage t =
     Inr (''{'' @ appendString ''id'' @ '':'' @ appendString (TranslatedMessage.ID t)
        @ '','' @ appendString ''post_id'' @ '':'' @ appendString (PostID t)
        @ '','' @ appendString ''source_lang'' @ '':'' @ appendString (TranslatedMessage.SourceLanguage t)
        @ '','' @ appendString ''source_text'' @ '':'' @ appendString (SourceText t)
        @ '','' @ appendString ''target_lang'' @ '':'' @ appendString (TranslatedMessage.TargetLanguage t)
        @ '','' @ appendString ''translated_text'' @ '':'' @ appendString (TranslatedText t)
        @ '','' @ appendString ''update_at'' @ '':'' @ FormatInt (TranslatedMessage.UpdateAt t)
        @ ''}'')"

subsection \<open>Decoding\<close>

text \<open>
  A JSON text is read in two steps, as the package does: the scanner accepts or refuses
  the text as a whole, and the decoder stores the accepted value into the target. Here
  the scanner returns the value it accepted; a number is validated and otherwise unread,
  since no field of the plugin's structs takes one from the store.
\<close>

datatype json =
    JNull
  | JBool bool
  | JNumber
  | JString string
  | JArray "json list"
  | JObject "(string \<times> json) list"

datatype json_error = SyntaxError | UnmarshalTypeError

definition isSpace :: "char \<Rightarrow> bool" where
  "isSpace c \<longleftrightarrow> c = CHR 0x20 \<or> c = CHR 0x09 \<or> c = CHR 0x0D \<or> c = CHR 0x0A"

definition skipSpace :: "string \<Rightarrow> string" where
  "skipSpace s = dropWhile isSpace s"

definition isDigit :: "char \<Rightarrow> bool" where
  "isDigit c \<longleftrightarrow> 48 \<le> byte c \<and> byte c \<le> 57"

definition hexval :: "char \<Rightarrow> nat option" where
  "hexval c =
     (let b = byte c in
      if 48 \<le> b \<and> b \<le> 57 then Some (b - 48)
      else if 97 \<le> b \<and> b \<le> 102 then Some (b - 87)
      else if 65 \<le> b \<and> b \<le> 70 then Some (b - 55)
      else None)"

text \<open>\<^verbatim>\<open>getu4\<close>: the rune of a \<^verbatim>\<open>\uXXXX\<close> escape at the head of the input, if one is there.\<close>

fun getu4 :: "string \<Rightarrow> nat option" where
  "getu4 (b # u # h1 # h2 # h3 # h4 # rest) =
     (if b = backslash \<and> u = CHR ''u'' then
        (case (hexval h1, hexval h2, hexval h3, hexval h4) of
           (Some d1, Some d2, Some d3, Some d4) \<Rightarrow> Some (((d1 * 16 + d2) * 16 + d3) * 16 + d4)
         | _ \<Rightarrow> None)
      else None)"
| "getu4 _ = None"

definition isSurrogate :: "nat \<Rightarrow> bool" where
  "isSurrogate r \<longleftrightarrow> 0xD800 \<le> r \<and> r < 0xE000"

text \<open>\<^verbatim>\<open>utf16.DecodeRune\<close>; \<open>None\<close> stands for the \<open>-1\<close> of a missing second escape.\<close>

definition utf16_DecodeRune :: "nat \<Rightarrow> nat option \<Rightarrow> nat" where
  "utf16_DecodeRune r1 r2 =
     (case r2 of
        None \<Rightarrow> RuneError
      | Some r2' \<Rightarrow>
          if 0xD800 \<le> r1 \<and> r1 < 0xDC00 \<and> 0xDC00 \<le> r2' \<and> r2' < 0xE000
          then (r1 - 0xD800) * 1024 + (r2' - 0xDC00) + 0x10000
          else RuneError)"

definition unescape :: "char \<Rightarrow> char option" where
  "unescape e =
     (if e = dquote \<or> e = backslash \<or> e = CHR ''/'' then Some e
      else if e = CHR ''b'' then Some (CHR 0x08)
      else if e = CHR ''f'' then Some (CHR 0x0C)
      else if e = CHR ''n'' then Some (CHR 0x0A)
      else if e = CHR ''r'' then Some (CHR 0x0D)
      else if e = CHR ''t'' then Some (CHR 0x09)
      else None)"

text \<open>
  One step through the body of a string literal (the scanner's string states together
  with \<^verbatim>\<open>unquote\<close>): the literal ends, or some bytes are produced and a number of input
  bytes consumed, or the literal is refused. Invalid UTF-8 and unpaired surrogates are
  replaced by U+FFFD; a control byte or an unknown escape is a syntax error.
\<close>

datatype scan_step = ScanBad | ScanEnd | ScanEmit string nat

definition stringStep :: "string \<Rightarrow> scan_step" where
  "stringStep s =
     (case s of
        [] \<Rightarrow> ScanBad
      | c # cs \<Rightarrow>
          if c = dquote then ScanEnd
          else if c = backslash then
            (case cs of
               [] \<Rightarrow> ScanBad
             | e # _ \<Rightarrow>
                 if e = CHR ''u'' then
                   (case getu4 s of
                      None \<Rightarrow> ScanBad
                    | Some rr \<Rightarrow>
                        if isSurrogate rr then
                          (let dec = utf16_DecodeRune rr (getu4 (drop 6 s)) in
                           if dec \<noteq> RuneError then ScanEmit (EncodeRune dec) 12
                           else ScanEmit (EncodeRune RuneError) 6)
                        else ScanEmit (EncodeRune rr) 6)
                 else
                   (case unescape e of
                      None \<Rightarrow> ScanBad
                    | Some x \<Rightarrow> ScanEmit [x] 2))
          else if byte c < 0x20 then ScanBad
          else if byte c < 0x80 then ScanEmit [c] 1
          else ScanEmit (EncodeRune (fst (DecodeRune s))) (snd (DecodeRune s)))"

lemma stringStep_consumes: "stringStep s = ScanEmit out k \<Longrightarrow> s \<noteq> [] \<and> 0 < k"
proof (cases s)
  case Nil
  assume "stringStep s = ScanEmit out k"
  with Nil show ?thesis by (simp add: stringStep_def)
next
  case (Cons c cs)
  assume emit: "stringStep s = ScanEmit out k"
  have "1 \<le> snd (DecodeRune (c # cs))"
    using DecodeRune_width [of "c # cs"] by simp
  with emit Cons show ?thesis
    by (auto simp: stringStep_def Let_def split: if_splits list.splits option.splits)
qed

text \<open>
  The body of a string literal, from after the opening quote: the unquoted bytes and
  the input after the closing quote.
\<close>

function scanString :: "string \<Rightarrow> (string \<times> string) option" where
  "scanString s =
     (case stringStep s of
        ScanBad \<Rightarrow> None
      | ScanEnd \<Rightarrow> Some ([], tl s)
      | ScanEmit out k \<Rightarrow>
          (case scanString (drop k s) of
             None \<Rightarrow> None
           | Some (t, rest) \<Rightarrow> Some (out @ t, rest)))"
  by pat_completeness auto

termination scanString
proof (relation "measure length")
  show "wf (measure length)" by simp
next
  fix s :: string and out :: string and k :: nat
  assume "stringStep s = ScanEmit out k"
  then have "s \<noteq> [] \<and> 0 < k" by (rule stringStep_consumes)
  then show "(drop k s, s) \<in> measure length" by simp
qed

declare scanString.simps [simp del]

text \<open>The number grammar of the scanner: the input after the number, if one is there.\<close>

definition scanExp :: "string \<Rightarrow> string option" where
  "scanExp s =
     (case s of
        [] \<Rightarrow> Some []
      | e # t \<Rightarrow>
          if e = CHR ''e'' \<or> e = CHR ''E'' then
            (let t' = (case t of [] \<Rightarrow> [] | sg # u \<Rightarrow> if sg = CHR ''+'' \<or> sg = CHR ''-'' then u else t)
             in case t' of
                  [] \<Rightarrow> None
                | d # _ \<Rightarrow> if isDigit d then Some (dropWhile isDigit t') else None)
          else Some s)"

definition scanFrac :: "string \<Rightarrow> string option" where
  "scanFrac s =
     (case s of
        [] \<Rightarrow> Some []
      | p # t \<Rightarrow>
          if p = CHR ''.'' then
            (case t of
               [] \<Rightarrow> None
             | d # _ \<Rightarrow> if isDigit d then scanExp (dropWhile isDigit t) else None)
          else scanExp s)"

definition scanNumber :: "string \<Rightarrow> string option" where
  "scanNumber s =
     (let s1 = (case s of [] \<Rightarrow> [] | m # t \<Rightarrow> if m = CHR ''-'' then t else s)
      in case s1 of
           [] \<Rightarrow> None
         | d # t \<Rightarrow>
             if d = CHR ''0'' then scanFrac t
             else if isDigit d then scanFrac (dropWhile isDigit t)
             else None)"

definition stripPrefix :: "string \<Rightarrow> string \<Rightarrow> string option" where
  "stripPrefix p s = (if take (length p) s = p then Some (drop (length p) s) else None)"

text \<open>
  One JSON value at the head of the input (no leading white space), and the input after
  it. The first argument bounds the depth of the recursion; \<open>2 * length s + 2\<close> is
  enough for every input \<open>s\<close>, since two nested calls never follow each other without a
  byte consumed. (The package's own limit on nesting, 10000 levels in recent releases,
  is not modelled.)
\<close>

fun parseValue :: "nat \<Rightarrow> string \<Rightarrow> (json \<times> string) option"
  and parseElements :: "nat \<Rightarrow> string \<Rightarrow> (json list \<times> string) option"
  and parseMembers :: "nat \<Rightarrow> string \<Rightarrow> ((string \<times> json) list \<times> string) option"
where
  "parseValue 0 s = None"
| "parseValue (Suc n) s =
     (case s of
        [] \<Rightarrow> None
      | c # cs \<Rightarrow>
          if c = CHR ''{'' then
            (case skipSpace cs of
               [] \<Rightarrow> None
             | d # ds \<Rightarrow>
                 if d = CHR ''}'' then Some (JObject [], ds)
                 else (case parseMembers n (d # ds) of
                         None \<Rightarrow> None
                       | Some (ms, r) \<Rightarrow> Some (JObject ms, r)))
          else if c = CHR ''['' then
            (case skipSpace cs of
               [] \<Rightarrow> None
             | d # ds \<Rightarrow>
                 if d = CHR '']'' then Some (JArray [], ds)
                 else (case parseElements n (d # ds) of
                         None \<Rightarrow> None
                       | Some (vs, r) \<Rightarrow> Some (JArray vs, r)))
          else if c = dquote then
            (case scanString cs of
               None \<Rightarrow> None
             | Some (t, r) \<Rightarrow> Some (JString t, r))
          else if c = CHR ''t'' then
            (case stripPrefix ''true'' s of None \<Rightarrow> None | Some r \<Rightarrow> Some (JBool True, r))
          else if c = CHR ''f'' then
            (case stripPrefix ''false'' s of None \<Rightarrow> None | Some r \<Rightarrow> Some (JBool False, r))
          else if c = CHR ''n'' then
            (case stripPrefix ''null'' s of None \<Rightarrow> None | Some r \<Rightarrow> Some (JNull, r))
          else
            (case scanNumber s of None \<Rightarrow> None | Some r \<Rightarrow> Some (JNumber, r)))"
| "parseElements 0 s = None"
| "parseElements (Suc n) s =
     (case parseValue n s of
        None \<Rightarrow> None
      | Some (v, r) \<Rightarrow>
          (case skipSpace r of
             [] \<Rightarrow> None
           | c # r' \<Rightarrow>
               if c = CHR '','' then
                 (case parseElements n (skipSpace r') of
                    None \<Rightarrow> None
                  | Some (vs, r'') \<Rightarrow> Some (v # vs, r''))
               else if c = CHR '']'' then Some ([v], r')
               else None))"
| "parseMembers 0 s = None"
| "parseMembers (Suc n) s =
     (case s of
        [] \<Rightarrow> None
      | q # cs \<Rightarrow>
          if q \<noteq> dquote then None
          else
            (case scanString cs of
               None \<Rightarrow> None
             | Some (k, r) \<Rightarrow>
                 (case skipSpace r of
                    [] \<Rightarrow> None
                  | col # r1 \<Rightarrow>
                      if col \<noteq> CHR '':'' then None
                      else
                        (case parseValue n (skipSpace r1) of
                           None \<Rightarrow> None
                         | Some (v, r2) \<Rightarrow>
                             (case skipSpace r2 of
                                [] \<Rightarrow> None
                              | c # r3 \<Rightarrow>
                                  if c = CHR '','' then
                                    (case parseMembers n (skipSpace r3) of
                                       None \<Rightarrow> None
                                     | Some (ms, r4) \<Rightarrow> Some ((k, v) # ms, r4))
                                  else if c = CHR ''}'' then Some ([(k, v)], r3)
                                  else None)))))"

text \<open>
  Matching an object key against a field's \<^verbatim>\<open>json\<close> tag: the tag itself, or any key
  equal to it under Unicode simple case folding. For a tag of ASCII letters that is
  ASCII case folding together with the two runes that fold to ASCII letters,
  U+017F (to \<^verbatim>\<open>S\<close>) and U+212A (to \<^verbatim>\<open>K\<close>); every other rune is left as it is.
\<close>

definition toUpper :: "char \<Rightarrow> char" where
  "toUpper c = (if 97 \<le> byte c \<and> byte c \<le> 122 then char_of (byte c - 32) else c)"

fun foldName :: "string \<Rightarrow> string" where
  "foldName (a # b # c # cs) =
     (if a = CHR 0xE2 \<and> b = CHR 0x84 \<and> c = CHR 0xAA then CHR ''K'' # foldName cs
      else if a = CHR 0xC5 \<and> b = CHR 0xBF then CHR ''S'' # foldName (c # cs)
      else toUpper a # foldName (b # c # cs))"
| "foldName [a, b] =
     (if a = CHR 0xC5 \<and> b = CHR 0xBF then [CHR ''S''] else [toUpper a, toUpper b])"
| "foldName [a] = [toUpper a]"
| "foldName [] = []"

definition matchField :: "string \<Rightarrow> string \<Rightarrow> bool" where
  "matchField name key \<longleftrightarrow> key = name \<or> foldName key = foldName name"

text \<open>
  Storing one member of an object into a \<^verbatim>\<open>UserInfo\<close>. The flag records a saved
  \<^verbatim>\<open>UnmarshalTypeError\<close>: a value of the wrong kind leaves the field as it is and
  decoding goes on. \<^verbatim>\<open>null\<close> changes nothing; an unknown key is skipped.
\<close>

definition setField :: "string \<times> json \<Rightarrow> UserInfo \<times> bool \<Rightarrow> UserInfo \<times> bool" where
  "setField kv st =
     (let k = fst kv; v = snd kv; u = fst st; bad = snd st in
      if matchField ''user_id'' k then
        (case v of JString t \<Rightarrow> (u\<lparr>UserID := t\<rparr>, bad) | JNull \<Rightarrow> (u, bad) | _ \<Rightarrow> (u, True))
      else if matchField ''activated'' k then
        (case v of JBool b \<Rightarrow> (u\<lparr>Activated := b\<rparr>, bad) | JNull \<Rightarrow> (u, bad) | _ \<Rightarrow> (u, True))
      else if matchField ''source_language'' k then
        (case v of JString t \<Rightarrow> (u\<lparr>UserInfo.SourceLanguage := t\<rparr>, bad) | JNull \<Rightarrow> (u, bad)
         | _ \<Rightarrow> (u, True))
      else if matchField ''target_language'' k then
        (case v of JString t \<Rightarrow> (u\<lparr>UserInfo.TargetLanguage := t\<rparr>, bad) | JNull \<Rightarrow> (u, bad)
         | _ \<Rightarrow> (u, True))
      else (u, bad))"

definition decodeInto :: "json \<Rightarrow> UserInfo \<Rightarrow> UserInfo \<times> bool" where
  "decodeInto v u =
     (case v of
        JNull \<Rightarrow> (u, False)
      | JObject ms \<Rightarrow> fold setField ms (u, False)
      | _ \<Rightarrow> (u, True))"

definition parseFuel :: "string \<Rightarrow> nat" where
  "parseFuel data = 2 * length data + 2"

text \<open>
  \<^verbatim>\<open>json.Unmarshal(data, &userInfo)\<close> into a zero \<^verbatim>\<open>UserInfo\<close>: the text must be one
  value with nothing but white space around it.
\<close>

definition Unmarshal_UserInfo :: "string \<Rightarrow> json_error + UserInfo" where
  "Unmarshal_UserInfo data =
     (case parseValue (parseFuel data) (skipSpace data) of
        None \<Rightarrow> Inl SyntaxError
      | Some (v, rest) \<Rightarrow>
          if skipSpace rest \<noteq> [] then Inl SyntaxError
          else (case decodeInto v zeroUserInfo of
                  (u, bad) \<Rightarrow> if bad then Inl UnmarshalTypeError else Inr u))"

text \<open>
  \<^verbatim>\<open>json.NewDecoder(r.Body).Decode(&info)\<close> into a nil \<^verbatim>\<open>*UserInfo\<close>, the error
  dropped as \<^verbatim>\<open>setInfo\<close> drops it: the pointer afterwards. The decoder reads the first
  value of the stream; a value that is not an object or array must be followed by
  white space or the end of the input. \<^verbatim>\<open>null\<close> and a refused text leave the pointer
  nil; any other value allocates the struct.
\<close>

definition Decode_UserInfo :: "string \<Rightarrow> UserInfo option" where
  "Decode_UserInfo body =
     (case parseValue (parseFuel body) (skipSpace body) of
        None \<Rightarrow> None
      | Some (v, rest) \<Rightarrow>
          (let delimited = (case v of JObject _ \<Rightarrow> True | JArray _ \<Rightarrow> True
                              | _ \<Rightarrow> (case rest of [] \<Rightarrow> True | c # _ \<Rightarrow> isSpace c))
           in if \<not> delimited then None
              else (case v of JNull \<Rightarrow> None | _ \<Rightarrow> Some (fst (decodeInto v zeroUserInfo)))))"

text \<open>A \<^verbatim>\<open>UserInfo\<close> with each of its strings coerced to valid UTF-8.\<close>

definition coerced :: "UserInfo \<Rightarrow> UserInfo" where
  "coerced u =
     \<lparr>UserID = coerceUTF8 (UserID u), Activated = Activated u,
      SourceLanguage = coerceUTF8 (UserInfo.SourceLanguage u),
      TargetLanguage = coerceUTF8 (UserInfo.TargetLanguage u)\<rparr>"

section \<open>The host platform and the remote services\<close>

text \<open>
  What the plugin reaches through \<^verbatim>\<open>p.API\<close> and the AWS clients is outside the
  repository. The state it changes is a record that every operation takes and returns:
  the key-value store, the websocket events published so far and, as a trace, the
  requests sent to the two remote services. How the outside answers is a parameter of
  every function (\<open>env\<close>): the table \<^verbatim>\<open>languageCodes\<close> and the method
  \<^verbatim>\<open>(*Plugin).IsValid\<close> (both declared in files that are not among the sources), the
  failures of the store, the posts of the host, and the answers of the services.
\<close>

datatype remote_call =
    DetectDominantLanguage string
  | TranslateText string string string

record ws_event =
  event :: string
  payload_user_id :: string
  payload_activated :: bool
  payload_source_language :: string
  payload_target_language :: string
  broadcast_UserId :: string

record world =
  kv :: "string \<rightharpoonup> string"
  events :: "ws_event list"
  calls :: "remote_call list"

record AppError =
  Where :: string
  Id :: string
  DetailedError :: string
  StatusCode :: nat

record env =
  languageCodes :: "string \<rightharpoonup> string"
  Plugin_IsValid :: "string option"
  KVGet_err :: "string \<Rightarrow> AppError option"
  KVSet_err :: "string \<Rightarrow> string \<Rightarrow> AppError option"
  GetPost :: "string \<Rightarrow> AppError + Post"
  NewSession_err :: bool
  credentials_err :: bool
  comprehend_answer :: "string \<Rightarrow> (string option list) option"
  translate_answer :: "string \<Rightarrow> string \<Rightarrow> string \<Rightarrow> (string option) option"

text \<open>
  \<^item> \<open>Plugin_IsValid\<close>: the error of \<^verbatim>\<open>p.IsValid()\<close>, \<open>None\<close> for \<^verbatim>\<open>nil\<close>.
  \<^item> \<open>KVGet_err\<close>, \<open>KVSet_err\<close>: the error the store returns for a read of a key, for a
    write of a key and value; \<open>None\<close> when it serves the request.
  \<^item> \<open>NewSession_err\<close>: \<^verbatim>\<open>session.NewSession()\<close> fails, so \<^verbatim>\<open>session.Must\<close> panics.
  \<^item> \<open>credentials_err\<close>: \<^verbatim>\<open>creds.Get()\<close> fails on the configured static credentials.
  \<^item> \<open>comprehend_answer\<close>: \<open>None\<close> for an error of \<^verbatim>\<open>DetectDominantLanguage\<close>,
    else the \<^verbatim>\<open>LanguageCode\<close> pointers of \<^verbatim>\<open>result.Languages\<close> in order.
  \<^item> \<open>translate_answer\<close>: \<open>None\<close> for an error of \<^verbatim>\<open>svc.Text\<close>, else the pointer
    \<^verbatim>\<open>output.TranslatedText\<close>.
\<close>

text \<open>A call either returns or panics (\<^verbatim>\<open>session.Must\<close>, a nil pointer dereferenced).\<close>

datatype 'a outcome = Panic | Return 'a

definition KVGet :: "env \<Rightarrow> string \<Rightarrow> world \<Rightarrow> AppError + string option" where
  "KVGet e key w = (case KVGet_err e key of Some err \<Rightarrow> Inl err | None \<Rightarrow> Inr (kv w key))"

definition KVSet :: "env \<Rightarrow> string \<Rightarrow> string \<Rightarrow> world \<Rightarrow> world \<times> AppError option" where
  "KVSet e key v w =
     (case KVSet_err e key v of
        Some err \<Rightarrow> (w, Some err)
      | None \<Rightarrow> (w\<lparr>kv := (kv w)(key \<mapsto> v)\<rparr>, None))"

definition PublishWebSocketEvent :: "ws_event \<Rightarrow> world \<Rightarrow> world" where
  "PublishWebSocketEvent ev w = w\<lparr>events := events w @ [ev]\<rparr>"

section \<open>The preference store (\<^verbatim>\<open>server/plugin.go\<close>)\<close>

definition NewUserInfo :: "string \<Rightarrow> UserInfo" where
  "NewUserInfo userID =
     \<lparr>UserID = userID, Activated = True, SourceLanguage = autoLanguage,
      TargetLanguage = enLanguage\<rparr>"

text \<open>\<^verbatim>\<open>languageCodes[k]\<close>: the zero value \<^verbatim>\<open>""\<close> for a key that is not in the map.\<close>

definition languageCodes_at :: "env \<Rightarrow> string \<Rightarrow> string" where
  "languageCodes_at e k = (case languageCodes e k of None \<Rightarrow> [] | Some name \<Rightarrow> name)"

text \<open>\<^verbatim>\<open>(*UserInfo).IsValid\<close>: the message of the error, \<open>None\<close> for \<^verbatim>\<open>nil\<close>.\<close>

definition IsValid :: "env \<Rightarrow> UserInfo \<Rightarrow> string option" where
  "IsValid e u =
     (if UserID u = [] \<or> length (UserID u) \<noteq> 26 then
        Some ''Invalid: user_id field''
      else if UserInfo.SourceLanguage u = [] then
        Some ''Invalid: source_language field''
      else if UserInfo.TargetLanguage u = [] then
        Some ''Invalid: target_language field''
      else if languageCodes_at e (UserInfo.SourceLanguage u) = [] then
        Some ''Invalid: source_language must be in a supported language code''
      else if languageCodes_at e (UserInfo.TargetLanguage u) = [] then
        Some ''Invalid: target_language must be in a supported language code''
      else if UserInfo.SourceLanguage u = UserInfo.TargetLanguage u then
        Some ''Invalid: source_language and target_language are equal''
      else if UserInfo.TargetLanguage u = autoLanguage then
        Some (''Invalid: target_language must not be '' @ [dquote] @ ''auto'' @ [dquote])
      else None)"

definition getUserInfo :: "env \<Rightarrow> string \<Rightarrow> world \<Rightarrow> APIErrorResponse + UserInfo" where
  "getUserInfo e userID w =
     (case KVGet e userID w of
        Inl err \<Rightarrow>
          Inl \<lparr>ID = apiErrorNoRecordFound, Message = ''No record found.'',
               StatusCode = StatusBadRequest\<rparr>
      | Inr None \<Rightarrow>
          Inl \<lparr>ID = apiErrorNoRecordFound, Message = ''No record found.'',
               StatusCode = StatusBadRequest\<rparr>
      | Inr (Some infoBytes) \<Rightarrow>
          (case Unmarshal_UserInfo infoBytes of
             Inl err \<Rightarrow>
               Inl \<lparr>ID = ''unable_to_unmarshal'', Message = ''Unable to unmarshal json.'',
                    StatusCode = StatusBadRequest\<rparr>
           | Inr userInfo \<Rightarrow> Inr userInfo))"

definition emitUserInfoChange :: "UserInfo \<Rightarrow> world \<Rightarrow> world" where
  "emitUserInfoChange userInfo w =
     PublishWebSocketEvent
       \<lparr>event = ''info_change'',
        payload_user_id = UserID userInfo,
        payload_activated = Activated userInfo,
        payload_source_language = UserInfo.SourceLanguage userInfo,
        payload_target_language = UserInfo.TargetLanguage userInfo,
        broadcast_UserId = UserID userInfo\<rparr> w"

definition setUserInfo :: "env \<Rightarrow> UserInfo \<Rightarrow> world \<Rightarrow> world \<times> APIErrorResponse option" where
  "setUserInfo e userInfo w =
     (case IsValid e userInfo of
        Some msg \<Rightarrow>
          (w, Some \<lparr>ID = ''invalid_user_info'', Message = msg, StatusCode = StatusBadRequest\<rparr>)
      | None \<Rightarrow>
          (case Marshal_UserInfo userInfo of
             Inl err \<Rightarrow>
               (w, Some \<lparr>ID = ''unable_to_unmarshal'', Message = ''Unable to marshal json.'',
                         StatusCode = StatusBadRequest\<rparr>)
           | Inr jsonUserInfo \<Rightarrow>
               (case KVSet e (UserID userInfo) jsonUserInfo w of
                  (w1, Some err) \<Rightarrow>
                    (w1, Some \<lparr>ID = ''unable_to_save'', Message = ''Unable to save user info.'',
                               StatusCode = StatusBadRequest\<rparr>)
                | (w1, None) \<Rightarrow> (emitUserInfoChange userInfo w1, None))))"

definition getActivatedString :: "UserInfo \<Rightarrow> string" where
  "getActivatedString u = (if Activated u then ''on'' else ''off'')"

section \<open>Detection and translation\<close>

definition remote :: "remote_call \<Rightarrow> world \<Rightarrow> world" where
  "remote c w = w\<lparr>calls := calls w @ [c]\<rparr>"

definition detectLanguage :: "env \<Rightarrow> string \<Rightarrow> world \<Rightarrow> world \<times> (string + string) outcome" where
  "detectLanguage e txt w =
     (if NewSession_err e then (w, Panic)
      else if credentials_err e then (w, Return (Inl ''Invalid AWS credentials''))
      else
        (let w1 = remote (DetectDominantLanguage txt) w in
         case comprehend_answer e txt of
           None \<Rightarrow> (w1, Return (Inl ''Failed to detect language''))
         | Some [] \<Rightarrow> (w1, Return (Inl ''Failed to detect language''))
         | Some (None # _) \<Rightarrow> (w1, Panic)
         | Some (Some language # _) \<Rightarrow> (w1, Return (Inr language))))"

definition translateText ::
  "env \<Rightarrow> string \<Rightarrow> string \<Rightarrow> string \<Rightarrow> world \<Rightarrow> world \<times> (AppError + string) outcome" where
  "translateText e txt sourceLang targetLang w =
     (if NewSession_err e then (w, Panic)
      else if credentials_err e then
        (w, Return (Inl \<lparr>Where = ''translateText'', Id = ''BadCredentials'',
                          DetailedError = ''Invalid AWS credentials'', StatusCode = 403\<rparr>))
      else
        (let w1 = remote (TranslateText txt sourceLang targetLang) w in
         case translate_answer e txt sourceLang targetLang of
           None \<Rightarrow>
             (w1, Return (Inl \<lparr>Where = ''translateText'', Id = ''TranslationFailed'',
                               DetailedError = ''Translation API error'', StatusCode = 500\<rparr>))
         | Some None \<Rightarrow> (w1, Panic)
         | Some (Some translated) \<Rightarrow> (w1, Return (Inr translated))))"

section \<open>The hook \<^verbatim>\<open>MessageWillBePosted\<close>\<close>

definition translatedFormat :: string where
  "translatedFormat =
     ''%s'' @ [CHR 0x0A, CHR 0x0A] @ ''(Translated: %s '' @ [CHR 0xE2, CHR 0x86, CHR 0x92]
       @ '' %s)'' @ [CHR 0x0A] @ ''%s''"

text \<open>
  The hook from the comparison of the two languages on (the source's lines 168 to 197),
  with the source language already resolved.
\<close>

definition postWithTranslation ::
  "env \<Rightarrow> Post \<Rightarrow> string \<Rightarrow> string \<Rightarrow> world \<Rightarrow> world \<times> (Post \<times> string) outcome" where
  "postWithTranslation e post sourceLang targetLang w =
     (if sourceLang = targetLang then (w, Return (post, []))
      else
        (case translateText e (Post.Message post) sourceLang targetLang w of
           (w1, Panic) \<Rightarrow> (w1, Panic)
         | (w1, Return (Inl err)) \<Rightarrow> (w1, Return (post, ''Failed to translate message''))
         | (w1, Return (Inr translatedText)) \<Rightarrow>
             if translatedText = Post.Message post then (w1, Return (post, []))
             else
               (let sourceLangName =
                      (case languageCodes e sourceLang of Some name \<Rightarrow> name | None \<Rightarrow> sourceLang);
                    targetLangName =
                      (case languageCodes e targetLang of Some name \<Rightarrow> name | None \<Rightarrow> targetLang)
                in (w1, Return
                     (post\<lparr>Post.Message :=
                        Sprintf translatedFormat
                          [Post.Message post, sourceLangName, targetLangName, translatedText]\<rparr>,
                      [])))))"

definition MessageWillBePosted ::
  "env \<Rightarrow> Post \<Rightarrow> world \<Rightarrow> world \<times> (Post \<times> string) outcome" where
  "MessageWillBePosted e post w =
     (case getUserInfo e (UserId post) w of
        Inl err \<Rightarrow> (w, Return (post, []))
      | Inr userInfo \<Rightarrow>
          if \<not> Activated userInfo then (w, Return (post, []))
          else if UserInfo.SourceLanguage userInfo = autoLanguage then
            (case detectLanguage e (Post.Message post) w of
               (w1, Panic) \<Rightarrow> (w1, Panic)
             | (w1, Return (Inl err)) \<Rightarrow> (w1, Return (post, ''Failed to detect language''))
             | (w1, Return (Inr detectedLang)) \<Rightarrow>
                 postWithTranslation e post detectedLang (UserInfo.TargetLanguage userInfo) w1)
          else
            postWithTranslation e post (UserInfo.SourceLanguage userInfo)
              (UserInfo.TargetLanguage userInfo) w)"

section \<open>The HTTP surface\<close>

text \<open>
  \<^verbatim>\<open>net/http\<close>, by the contract of \<^verbatim>\<open>http.ResponseWriter\<close>: the first \<^verbatim>\<open>WriteHeader\<close>
  fixes the status and the headers that are sent, a later one changes nothing, and a
  \<^verbatim>\<open>Write\<close> before any \<^verbatim>\<open>WriteHeader\<close> sends status 200 first. A request is its path,
  its headers, its query parameters and its body; \<^verbatim>\<open>Get\<close> on a header or a query
  parameter that is absent gives \<^verbatim>\<open>""\<close>. Header names are looked up as the source
  writes them (\<^verbatim>\<open>net/http\<close> compares them in canonical form).
\<close>

record ResponseWriter =
  Header :: "string \<rightharpoonup> string"
  status :: "nat option"
  sentHeader :: "string \<rightharpoonup> string"
  written :: string

record Request =
  URL_Path :: string
  ReqHeader :: "string \<rightharpoonup> string"
  URL_Query :: "string \<rightharpoonup> string"
  ReqBody :: string

definition newResponseWriter :: ResponseWriter where
  "newResponseWriter = \<lparr>Header = Map.empty, status = None, sentHeader = Map.empty, written = []\<rparr>"

definition Get :: "(string \<rightharpoonup> string) \<Rightarrow> string \<Rightarrow> string" where
  "Get m k = (case m k of None \<Rightarrow> [] | Some v \<Rightarrow> v)"

definition Header_Set :: "string \<Rightarrow> string \<Rightarrow> ResponseWriter \<Rightarrow> ResponseWriter" where
  "Header_Set k v rw = rw\<lparr>Header := (Header rw)(k \<mapsto> v)\<rparr>"

definition WriteHeader :: "nat \<Rightarrow> ResponseWriter \<Rightarrow> ResponseWriter" where
  "WriteHeader code rw =
     (case status rw of
        Some c \<Rightarrow> rw
      | None \<Rightarrow> rw\<lparr>status := Some code, sentHeader := Header rw\<rparr>)"

definition Write :: "string \<Rightarrow> ResponseWriter \<Rightarrow> ResponseWriter" where
  "Write bs rw = (let rw1 = WriteHeader StatusOK rw in rw1\<lparr>written := written rw1 @ bs\<rparr>)"

text \<open>\<^verbatim>\<open>http.Error\<close> and \<^verbatim>\<open>http.NotFound\<close>.\<close>

definition http_Error :: "ResponseWriter \<Rightarrow> string \<Rightarrow> nat \<Rightarrow> ResponseWriter" where
  "http_Error rw msg code =
     Write (msg @ [CHR 0x0A])
       (WriteHeader code
         (Header_Set ''X-Content-Type-Options'' ''nosniff''
           (Header_Set ''Content-Type'' ''text/plain; charset=utf-8'' rw)))"

definition http_NotFound :: "ResponseWriter \<Rightarrow> ResponseWriter" where
  "http_NotFound rw = http_Error rw ''404 page not found'' StatusNotFound"

text \<open>\<^verbatim>\<open>resp, _ := json.Marshal(x); w.Write(resp)\<close>: a failed marshal writes no bytes.\<close>

definition writeJSON :: "string + string \<Rightarrow> ResponseWriter \<Rightarrow> ResponseWriter" where
  "writeJSON m rw = (case m of Inl err \<Rightarrow> Write [] rw | Inr resp \<Rightarrow> Write resp rw)"

text \<open>\<^verbatim>\<open>getGo\<close> from the call of \<^verbatim>\<open>translateText\<close> on, with the source language resolved.\<close>

definition goTranslate ::
  "env \<Rightarrow> ResponseWriter \<Rightarrow> string \<Rightarrow> Post \<Rightarrow> string \<Rightarrow> string \<Rightarrow> world
     \<Rightarrow> world \<times> ResponseWriter outcome" where
  "goTranslate e rw postID post source target w =
     (case translateText e (Post.Message post) source target w of
        (w1, Panic) \<Rightarrow> (w1, Panic)
      | (w1, Return (Inl err)) \<Rightarrow>
          (w1, Return (http_Error rw ''Translation failed'' StatusBadRequest))
      | (w1, Return (Inr translatedText)) \<Rightarrow>
          (let translated =
                 \<lparr>TranslatedMessage.ID = postID @ source @ target @ FormatInt (Post.UpdateAt post),
                  PostID = postID,
                  SourceLanguage = source,
                  SourceText = Post.Message post,
                  TargetLanguage = target,
                  TranslatedText = translatedText,
                  UpdateAt = Post.UpdateAt post\<rparr>
           in (w1, Return (writeJSON (Marshal_TranslatedMessage translated) rw))))"

definition getGo ::
  "env \<Rightarrow> Request \<Rightarrow> ResponseWriter \<Rightarrow> world \<Rightarrow> world \<times> ResponseWriter outcome" where
  "getGo e r rw w =
     (let userID = Get (ReqHeader r) ''Mattermost-User-ID'' in
      if userID = [] then
        (w, Return (http_Error rw ''Not authorized to translate post'' StatusUnauthorized))
      else
        (let postID = Get (URL_Query r) ''post_id'';
             source = Get (URL_Query r) ''source'';
             target = Get (URL_Query r) ''target''
         in case GetPost e postID of
              Inl err \<Rightarrow> (w, Return (http_Error rw ''No post to translate'' StatusBadRequest))
            | Inr post \<Rightarrow>
                if source = ''auto'' then
                  (case detectLanguage e (Post.Message post) w of
                     (w1, Panic) \<Rightarrow> (w1, Panic)
                   | (w1, Return (Inl err)) \<Rightarrow>
                       (w1, Return (http_Error rw ''Language detection failed'' StatusBadRequest))
                   | (w1, Return (Inr detected)) \<Rightarrow>
                       goTranslate e rw postID post detected target w1)
                else goTranslate e rw postID post source target w))"

definition getInfo ::
  "env \<Rightarrow> Request \<Rightarrow> ResponseWriter \<Rightarrow> world \<Rightarrow> world \<times> ResponseWriter outcome" where
  "getInfo e r rw w =
     (let userID = Get (ReqHeader r) ''Mattermost-User-ID'' in
      if userID = [] then (w, Return rw)
      else
        (case getUserInfo e userID w of
           Inl err \<Rightarrow> (w, Return rw)
         | Inr info \<Rightarrow> (w, Return (writeJSON (Marshal_UserInfo info) rw))))"

definition setInfo ::
  "env \<Rightarrow> Request \<Rightarrow> ResponseWriter \<Rightarrow> world \<Rightarrow> world \<times> ResponseWriter outcome" where
  "setInfo e r rw w =
     (let userID = Get (ReqHeader r) ''Mattermost-User-ID'' in
      if userID = [] then
        (w, Return (http_Error rw ''Not authorized to set info'' StatusUnauthorized))
      else
        (case Decode_UserInfo (ReqBody r) of
           None \<Rightarrow> (w, Return (http_Error rw ''Invalid parameter: info'' StatusBadRequest))
         | Some info \<Rightarrow>
             (case IsValid e info of
                Some msg \<Rightarrow>
                  (w, Return (http_Error rw (Sprintf ''Invalid info: %s'' [msg]) StatusBadRequest))
              | None \<Rightarrow>
                  if UserID info \<noteq> userID then
                    (w, Return (http_Error rw ''Invalid parameter: user mismatch'' StatusBadRequest))
                  else
                    (case setUserInfo e info w of
                       (w1, Some err) \<Rightarrow>
                         (w1, Return (http_Error rw ''Failed to set info'' StatusBadRequest))
                     | (w1, None) \<Rightarrow> (w1, Return (writeJSON (Marshal_UserInfo info) rw))))))"

text \<open>
  \<^verbatim>\<open>ServeHTTP\<close>: the check of the configuration writes the 501 answer and the function
  goes on; there is no \<^verbatim>\<open>return\<close> in that branch.
\<close>

definition ServeHTTP ::
  "env \<Rightarrow> Request \<Rightarrow> ResponseWriter \<Rightarrow> world \<Rightarrow> world \<times> ResponseWriter outcome" where
  "ServeHTTP e r rw w =
     (let rw1 = (case Plugin_IsValid e of
                   Some err \<Rightarrow> http_Error rw ''This plugin is not configured.'' StatusNotImplemented
                 | None \<Rightarrow> rw);
          rw2 = Header_Set ''Content-Type'' ''application/json'' rw1;
          path = URL_Path r
      in if path = ''/api/go'' then getGo e r rw2 w
         else if path = ''/api/get_info'' then getInfo e r rw2 w
         else if path = ''/api/set_info'' then setInfo e r rw2 w
         else (w, Return (http_NotFound rw2)))"

section \<open>A configured plugin whose services answer\<close>

text \<open>
  Concrete inputs for the instances below: a catalog with the entries \<^verbatim>\<open>auto\<close>,
  \<^verbatim>\<open>en\<close> and \<^verbatim>\<open>fr\<close>, a store that serves every request, a host with one post
  \<^verbatim>\<open>Hello\<close>, and services that detect \<^verbatim>\<open>en\<close> and translate to \<^verbatim>\<open>Bonjour\<close>.
\<close>

definition catalog0 :: "string \<rightharpoonup> string" where
  "catalog0 = [''auto'' \<mapsto> ''Auto'', ''en'' \<mapsto> ''English'', ''fr'' \<mapsto> ''French'']"

definition user0 :: string where
  "user0 = replicate 26 (CHR ''u'')"

definition post0 :: Post where
  "post0 = \<lparr>UserId = user0, Message = ''Hello'', UpdateAt = 1\<rparr>"

definition env0 :: env where
  "env0 =
     \<lparr>languageCodes = catalog0,
      Plugin_IsValid = None,
      KVGet_err = (\<lambda>k. None),
      KVSet_err = (\<lambda>k v. None),
      GetPost = (\<lambda>postID. Inr post0),
      NewSession_err = False,
      credentials_err = False,
      comprehend_answer = (\<lambda>t. Some [Some ''en'']),
      translate_answer = (\<lambda>t s g. Some (Some ''Bonjour''))\<rparr>"

definition world0 :: world where
  "world0 = \<lparr>kv = Map.empty, events = [], calls = []\<rparr>"

text \<open>
  The preference \<^verbatim>\<open>en\<close> to \<^verbatim>\<open>fr\<close> of the user, the state after that user stored it, and
  a preference that passes \<^verbatim>\<open>IsValid\<close> although its \<^verbatim>\<open>UserID\<close> (26 bytes, the last one
  \<^verbatim>\<open>0xFF\<close>) is not valid UTF-8.
\<close>

definition pref_en_fr :: UserInfo where
  "pref_en_fr = \<lparr>UserID = user0, Activated = True, SourceLanguage = ''en'', TargetLanguage = ''fr''\<rparr>"

definition world_en_fr :: world where
  "world_en_fr = fst (setUserInfo env0 pref_en_fr world0)"


text \<open>The same preference switched off, stored; and a catalog without an entry \<^verbatim>\<open>auto\<close>.\<close>

definition pref_off :: UserInfo where
  "pref_off = pref_en_fr\<lparr>Activated := False\<rparr>"

definition world_off :: world where
  "world_off = fst (setUserInfo env0 pref_off world0)"


text \<open>An environment whose detection service answers with an error, and the preference
  \<^verbatim>\<open>auto\<close> to \<^verbatim>\<open>en\<close> of the user, stored.\<close>

definition env_detect_fails :: env where
  "env_detect_fails = env0\<lparr>comprehend_answer := (\<lambda>t. None)\<rparr>"

definition world_auto :: world where
  "world_auto = fst (setUserInfo env0 (NewUserInfo user0) world0)"

text \<open>
  Requests of the user: a translation of the post from \<^verbatim>\<open>en\<close> to \<^verbatim>\<open>fr\<close> and one from
  \<^verbatim>\<open>en\<close> to \<^verbatim>\<open>en\<close>, and an update of the preference whose body is the JSON text of the
  preference \<^verbatim>\<open>en\<close> to \<^verbatim>\<open>fr\<close>. Last, a plugin that is not configured.
\<close>

definition req_go :: "string \<Rightarrow> string \<Rightarrow> Request" where
  "req_go source target =
     \<lparr>URL_Path = ''/api/go'',
      ReqHeader = [''Mattermost-User-ID'' \<mapsto> user0],
      URL_Query = [''post_id'' \<mapsto> ''p1'', ''source'' \<mapsto> source, ''target'' \<mapsto> target],
      ReqBody = []\<rparr>"

definition body_en_fr :: string where
  "body_en_fr = (case Marshal_UserInfo pref_en_fr of Inl err \<Rightarrow> [] | Inr b \<Rightarrow> b)"

definition req_set :: Request where
  "req_set =
     \<lparr>URL_Path = ''/api/set_info'',
      ReqHeader = [''Mattermost-User-ID'' \<mapsto> user0],
      URL_Query = Map.empty,
      ReqBody = body_en_fr\<rparr>"

definition env_unconfigured :: env where
  "env_unconfigured = env0\<lparr>Plugin_IsValid := Some ''not configured''\<rparr>"

section \<open>Reading back what \<^verbatim>\<open>json.Marshal\<close> wrote\<close>

text \<open>
  Facts about the model of \<^verbatim>\<open>encoding/json\<close> that the claims on the preference store
  rest on: \<^verbatim>\<open>utf8.EncodeRune\<close> inverts \<^verbatim>\<open>utf8.DecodeRune\<close> on every valid encoding, the
  scanner reads an escaped string back as the string coerced to valid UTF-8, and
  \<^verbatim>\<open>Unmarshal\<close> after \<^verbatim>\<open>Marshal\<close> on a \<^verbatim>\<open>UserInfo\<close> is that coercion on each field.
\<close>

lemma mod_range:
  fixes n k m :: nat
  assumes "m * k \<le> n" and "n < m * Suc k"
  shows "m * k + n mod m = n"
proof -
  have "n div m = k" using assms by (rule div_nat_eqI)
  then show ?thesis using mult_div_mod_eq [of m n] by simp
qed
lemma lead_byte_two: "192 \<le> p \<Longrightarrow> p < 224 \<Longrightarrow> 192 + p mod 32 = (p::nat)"
  using mod_range [of 32 6 p] by simp
lemma lead_byte_three: "224 \<le> p \<Longrightarrow> p < 240 \<Longrightarrow> 224 + p mod 16 = (p::nat)"
  using mod_range [of 16 14 p] by simp
lemma lead_byte_four: "240 \<le> p \<Longrightarrow> p < 248 \<Longrightarrow> 240 + p mod 8 = (p::nat)"
  using mod_range [of 8 30 p] by simp
lemma continuation_byte: "128 \<le> b \<Longrightarrow> b < 192 \<Longrightarrow> 128 + b mod 64 = (b::nat)"
  using mod_range [of 64 2 b] by simp

lemma div_mod_place:
  fixes a z m :: nat
  assumes "z < m"
  shows "(a * m + z) div m = a" and "(a * m + z) mod m = z"
  using assms by simp_all

lemma div4096: "(r::nat) div 4096 = r div 64 div 64"
proof -
  have "r div (64 * 64) = r div 64 div 64" by (rule div_mult2_eq)
  then show ?thesis by simp
qed

lemma div262144: "(r::nat) div 262144 = r div 64 div 64 div 64"
proof -
  have "r div (4096 * 64) = r div 4096 div 64" by (rule div_mult2_eq)
  then show ?thesis by (simp add: div4096)
qed

lemma places_three:
  fixes x y z :: nat
  assumes y: "y < 64" and z: "z < 64"
  shows "(x * 4096 + y * 64 + z) div 4096 = x"
    and "((x * 4096 + y * 64 + z) div 64) mod 64 = y"
    and "(x * 4096 + y * 64 + z) mod 64 = z"
proof -
  define a where "a = x * 64 + y"
  have r: "x * 4096 + y * 64 + z = a * 64 + z" by (simp add: a_def)
  have d: "(x * 4096 + y * 64 + z) div 64 = a"
    by (simp only: r div_mod_place(1) [OF z])
  show "(x * 4096 + y * 64 + z) mod 64 = z"
    by (simp only: r div_mod_place(2) [OF z])
  show "((x * 4096 + y * 64 + z) div 64) mod 64 = y"
    by (simp only: d a_def div_mod_place(2) [OF y])
  show "(x * 4096 + y * 64 + z) div 4096 = x"
    by (simp only: div4096 d a_def div_mod_place(1) [OF y])
qed

lemma places_four:
  fixes x y z u :: nat
  assumes y: "y < 64" and z: "z < 64" and u: "u < 64"
  shows "(x * 262144 + y * 4096 + z * 64 + u) div 262144 = x"
    and "((x * 262144 + y * 4096 + z * 64 + u) div 4096) mod 64 = y"
    and "((x * 262144 + y * 4096 + z * 64 + u) div 64) mod 64 = z"
    and "(x * 262144 + y * 4096 + z * 64 + u) mod 64 = u"
proof -
  define a where "a = x * 4096 + y * 64 + z"
  have r: "x * 262144 + y * 4096 + z * 64 + u = a * 64 + u" by (simp add: a_def)
  have d: "(x * 262144 + y * 4096 + z * 64 + u) div 64 = a"
    by (simp only: r div_mod_place(1) [OF u])
  show "(x * 262144 + y * 4096 + z * 64 + u) mod 64 = u"
    by (simp only: r div_mod_place(2) [OF u])
  show "((x * 262144 + y * 4096 + z * 64 + u) div 64) mod 64 = z"
    by (simp only: d a_def places_three(3) [OF y z])
  show "((x * 262144 + y * 4096 + z * 64 + u) div 4096) mod 64 = y"
    by (simp only: div4096 d a_def places_three(2) [OF y z])
  have "a div 4096 = x" by (simp only: a_def places_three(1) [OF y z])
  then show "(x * 262144 + y * 4096 + z * 64 + u) div 262144 = x"
    by (simp only: div262144 d div4096 [symmetric])
qed

lemma byte_less_256: "byte c < 256"
  by (simp add: byte_def)

lemma char_of_byte: "char_of (byte c) = c"
  by (simp add: byte_def)

lemma DecodeRune_bad_lead:
  "128 \<le> byte c \<Longrightarrow> byte c < 194 \<or> 244 < byte c \<Longrightarrow> DecodeRune (c # cs) = (RuneError, 1)"
  by (auto simp: DecodeRune_def Let_def)

lemma DecodeRune_two:
  assumes "194 \<le> byte c" "byte c < 224"
  shows "DecodeRune (c # cs) =
           (case cs of
              [] \<Rightarrow> (RuneError, 1)
            | c1 # _ \<Rightarrow>
                if byte c1 < 128 \<or> 191 < byte c1 then (RuneError, 1)
                else ((byte c mod 32) * 64 + byte c1 mod 64, 2))"
  using assms by (cases cs) (auto simp: DecodeRune_def Let_def)

lemma DecodeRune_three:
  assumes "224 \<le> byte c" "byte c < 240"
  shows "DecodeRune (c # cs) =
           (case cs of
              c1 # c2 # _ \<Rightarrow>
                if byte c1 < (if byte c = 224 then 160 else 128)
                   \<or> (if byte c = 237 then 159 else 191) < byte c1 then (RuneError, 1)
                else if byte c2 < 128 \<or> 191 < byte c2 then (RuneError, 1)
                else ((byte c mod 16) * 4096 + (byte c1 mod 64) * 64 + byte c2 mod 64, 3)
            | _ \<Rightarrow> (RuneError, 1))"
  using assms by (cases cs; cases "tl cs") (auto simp: DecodeRune_def Let_def)

lemma DecodeRune_four:
  assumes "240 \<le> byte c" "byte c \<le> 244"
  shows "DecodeRune (c # cs) =
           (case cs of
              c1 # c2 # c3 # _ \<Rightarrow>
                if byte c1 < (if byte c = 240 then 144 else 128)
                   \<or> (if byte c = 244 then 143 else 191) < byte c1 then (RuneError, 1)
                else if byte c2 < 128 \<or> 191 < byte c2 then (RuneError, 1)
                else if byte c3 < 128 \<or> 191 < byte c3 then (RuneError, 1)
                else ((byte c mod 8) * 262144 + (byte c1 mod 64) * 4096
                        + (byte c2 mod 64) * 64 + byte c3 mod 64, 4)
            | _ \<Rightarrow> (RuneError, 1))"
  using assms by (cases cs; cases "tl cs"; cases "tl (tl cs)") (auto simp: DecodeRune_def Let_def)

lemma EncodeRune_two:
  assumes c: "194 \<le> byte c" "byte c < 224" and c1: "128 \<le> byte c1" "byte c1 \<le> 191"
  shows "EncodeRune ((byte c mod 32) * 64 + byte c1 mod 64) = [c, c1]"
proof -
  define x where "x = byte c mod 32"
  define y where "y = byte c1 mod 64"
  have xc: "192 + x = byte c" using lead_byte_two [of "byte c"] c by (simp add: x_def)
  have yc: "128 + y = byte c1" using continuation_byte [of "byte c1"] c1 by (simp add: y_def)
  have y: "y < 64" by (simp add: y_def)
  have x: "2 \<le> x" "x < 32" using xc c by linarith+
  have lo: "\<not> x * 64 + y \<le> 127" using x by linarith
  have hi: "x * 64 + y \<le> 2047" using x y by linarith
  have "EncodeRune (x * 64 + y) = [char_of (192 + (x * 64 + y) div 64), char_of (128 + (x * 64 + y) mod 64)]"
    using lo hi by (simp add: EncodeRune_def)
  also have "\<dots> = [char_of (byte c), char_of (byte c1)]"
    by (simp only: div_mod_place [OF y] xc yc)
  finally show ?thesis by (simp only: char_of_byte x_def y_def)
qed

lemma EncodeRune_three:
  assumes c: "224 \<le> byte c" "byte c < 240"
    and c1: "(if byte c = 224 then 160 else 128) \<le> byte c1" "byte c1 \<le> (if byte c = 237 then 159 else 191)"
    and c2: "128 \<le> byte c2" "byte c2 \<le> 191"
  shows "EncodeRune ((byte c mod 16) * 4096 + (byte c1 mod 64) * 64 + byte c2 mod 64) = [c, c1, c2]"
proof -
  define x where "x = byte c mod 16"
  define y where "y = byte c1 mod 64"
  define z where "z = byte c2 mod 64"
  have c1': "128 \<le> byte c1" "byte c1 < 192" using c1 by (auto split: if_splits)
  have xc: "224 + x = byte c" using lead_byte_three [of "byte c"] c by (simp add: x_def)
  have yc: "128 + y = byte c1" using continuation_byte [of "byte c1"] c1' by (simp add: y_def)
  have zc: "128 + z = byte c2" using continuation_byte [of "byte c2"] c2 by (simp add: z_def)
  have y: "y < 64" by (simp add: y_def)
  have z: "z < 64" by (simp add: z_def)
  have x: "x < 16" by (simp add: x_def)
  have y0: "x = 0 \<longrightarrow> 32 \<le> y" using c1 xc yc by (auto split: if_splits)
  have y13: "x = 13 \<longrightarrow> y \<le> 31" using c1 xc yc by (auto split: if_splits)
  have lo: "\<not> x * 4096 + y * 64 + z \<le> 2047" using y0 by (cases "x = 0") auto
  have hi: "x * 4096 + y * 64 + z \<le> 65535" using x y z by linarith
  have ns: "\<not> (55296 \<le> x * 4096 + y * 64 + z \<and> x * 4096 + y * 64 + z \<le> 57343)"
  proof (cases "x = 13")
    case True
    with y13 z show ?thesis by auto
  next
    case False
    then have "x \<le> 12 \<or> 14 \<le> x" by linarith
    with y z show ?thesis by auto
  qed
  have "EncodeRune (x * 4096 + y * 64 + z) =
          [char_of (224 + (x * 4096 + y * 64 + z) div 4096),
           char_of (128 + ((x * 4096 + y * 64 + z) div 64) mod 64),
           char_of (128 + (x * 4096 + y * 64 + z) mod 64)]"
  proof -
    have cond: "(1114111 < x * 4096 + y * 64 + z
                  \<or> (55296 \<le> x * 4096 + y * 64 + z \<and> x * 4096 + y * 64 + z \<le> 57343)) = False"
      using hi ns by auto
    have lo1: "\<not> x * 4096 + y * 64 + z \<le> 127" using lo by linarith
    show ?thesis
      unfolding EncodeRune_def using lo lo1 hi by (simp only: cond if_False if_True)
  qed
  also have "\<dots> = [char_of (byte c), char_of (byte c1), char_of (byte c2)]"
    by (simp only: places_three [OF y z] xc yc zc)
  finally show ?thesis by (simp only: char_of_byte x_def y_def z_def)
qed

lemma EncodeRune_four:
  assumes c: "240 \<le> byte c" "byte c \<le> 244"
    and c1: "(if byte c = 240 then 144 else 128) \<le> byte c1" "byte c1 \<le> (if byte c = 244 then 143 else 191)"
    and c2: "128 \<le> byte c2" "byte c2 \<le> 191"
    and c3: "128 \<le> byte c3" "byte c3 \<le> 191"
  shows "EncodeRune ((byte c mod 8) * 262144 + (byte c1 mod 64) * 4096
                        + (byte c2 mod 64) * 64 + byte c3 mod 64) = [c, c1, c2, c3]"
proof -
  define x where "x = byte c mod 8"
  define y where "y = byte c1 mod 64"
  define z where "z = byte c2 mod 64"
  define u where "u = byte c3 mod 64"
  have c1': "128 \<le> byte c1" "byte c1 < 192" using c1 by (auto split: if_splits)
  have xc: "240 + x = byte c" using lead_byte_four [of "byte c"] c by (simp add: x_def)
  have yc: "128 + y = byte c1" using continuation_byte [of "byte c1"] c1' by (simp add: y_def)
  have zc: "128 + z = byte c2" using continuation_byte [of "byte c2"] c2 by (simp add: z_def)
  have uc: "128 + u = byte c3" using continuation_byte [of "byte c3"] c3 by (simp add: u_def)
  have y: "y < 64" by (simp add: y_def)
  have z: "z < 64" by (simp add: z_def)
  have u: "u < 64" by (simp add: u_def)
  have x: "x \<le> 4" using xc c by linarith
  have y0: "x = 0 \<longrightarrow> 16 \<le> y" using c1 xc yc by (auto split: if_splits)
  have y4: "x = 4 \<longrightarrow> y \<le> 15" using c1 xc yc by (auto split: if_splits)
  have lo: "\<not> x * 262144 + y * 4096 + z * 64 + u \<le> 65535" using y0 by (cases "x = 0") auto
  have hi: "x * 262144 + y * 4096 + z * 64 + u \<le> 1114111"
  proof (cases "x = 4")
    case True
    with y4 z u show ?thesis by auto
  next
    case False
    with x have "x \<le> 3" by linarith
    with y z u show ?thesis by linarith
  qed
  have "EncodeRune (x * 262144 + y * 4096 + z * 64 + u) =
          [char_of (240 + (x * 262144 + y * 4096 + z * 64 + u) div 262144),
           char_of (128 + ((x * 262144 + y * 4096 + z * 64 + u) div 4096) mod 64),
           char_of (128 + ((x * 262144 + y * 4096 + z * 64 + u) div 64) mod 64),
           char_of (128 + (x * 262144 + y * 4096 + z * 64 + u) mod 64)]"
    using lo hi by (simp add: EncodeRune_def)
  also have "\<dots> = [char_of (byte c), char_of (byte c1), char_of (byte c2), char_of (byte c3)]"
    by (simp only: places_four [OF y z u] xc yc zc uc)
  finally show ?thesis by (simp only: char_of_byte x_def y_def z_def u_def)
qed

lemma DecodeRune_multibyte:
  assumes hi: "128 \<le> byte c" and ok: "DecodeRune (c # cs) \<noteq> (RuneError, 1)"
  shows "\<exists>r k. DecodeRune (c # cs) = (r, k) \<and> 2 \<le> k \<and> k \<le> Suc (length cs)
           \<and> EncodeRune r = take k (c # cs)
           \<and> (\<forall>rest. DecodeRune (take k (c # cs) @ rest) = (r, k))"
proof -
  have "\<not> (byte c < 194 \<or> 244 < byte c)"
    using DecodeRune_bad_lead [OF hi, of cs] ok by blast
  then have lead: "194 \<le> byte c" "byte c \<le> 244"
    by linarith+
  consider (two) "byte c < 224" | (three) "224 \<le> byte c" "byte c < 240" | (four) "240 \<le> byte c"
    by linarith
  then show ?thesis
  proof cases
    case two
    note eq = DecodeRune_two [OF lead(1) two]
    from ok eq [of cs] obtain c1 cs1 where cs: "cs = c1 # cs1"
      by (cases cs) auto
    from ok eq [of cs] cs have c1: "128 \<le> byte c1" "byte c1 \<le> 191"
      by (auto split: if_splits)
    let ?r = "(byte c mod 32) * 64 + byte c1 mod 64"
    have "DecodeRune (c # cs) = (?r, 2)" using eq [of cs] cs c1 by simp
    moreover have "EncodeRune ?r = take 2 (c # cs)"
      using EncodeRune_two [OF lead(1) two c1] cs by simp
    moreover have "\<forall>rest. DecodeRune (take 2 (c # cs) @ rest) = (?r, 2)"
      using eq c1 cs by simp
    ultimately show ?thesis using cs by auto
  next
    case three
    note eq = DecodeRune_three [OF three]
    from ok eq [of cs] obtain c1 c2 cs2 where cs: "cs = c1 # c2 # cs2"
      by (cases cs; cases "tl cs") auto
    from ok eq [of cs] cs
    have c1: "(if byte c = 224 then 160 else 128) \<le> byte c1"
             "byte c1 \<le> (if byte c = 237 then 159 else 191)"
      and c2: "128 \<le> byte c2" "byte c2 \<le> 191"
      by (auto split: if_splits)
    let ?r = "(byte c mod 16) * 4096 + (byte c1 mod 64) * 64 + byte c2 mod 64"
    have "DecodeRune (c # cs) = (?r, 3)" using eq [of cs] cs c1 c2 by (auto split: if_splits)
    moreover have "EncodeRune ?r = take 3 (c # cs)"
      using EncodeRune_three [OF three c1 c2] cs by simp
    moreover have "\<forall>rest. DecodeRune (take 3 (c # cs) @ rest) = (?r, 3)"
      using eq c1 c2 cs by (auto split: if_splits)
    ultimately show ?thesis using cs by auto
  next
    case four
    note eq = DecodeRune_four [OF four lead(2)]
    from ok eq [of cs] obtain c1 c2 c3 cs3 where cs: "cs = c1 # c2 # c3 # cs3"
      by (cases cs; cases "tl cs"; cases "tl (tl cs)") auto
    from ok eq [of cs] cs
    have c1: "(if byte c = 240 then 144 else 128) \<le> byte c1"
             "byte c1 \<le> (if byte c = 244 then 143 else 191)"
      and c2: "128 \<le> byte c2" "byte c2 \<le> 191"
      and c3: "128 \<le> byte c3" "byte c3 \<le> 191"
      by (auto split: if_splits)
    let ?r = "(byte c mod 8) * 262144 + (byte c1 mod 64) * 4096 + (byte c2 mod 64) * 64
                + byte c3 mod 64"
    have "DecodeRune (c # cs) = (?r, 4)" using eq [of cs] cs c1 c2 c3 by (auto split: if_splits)
    moreover have "EncodeRune ?r = take 4 (c # cs)"
      using EncodeRune_four [OF four lead(2) c1 c2 c3] cs by simp
    moreover have "\<forall>rest. DecodeRune (take 4 (c # cs) @ rest) = (?r, 4)"
      using eq c1 c2 c3 cs by (auto split: if_splits)
    ultimately show ?thesis using cs by auto
  qed
qed

lemma hexval_hex: "n < 16 \<Longrightarrow> hexval (hex n) = Some n"
proof -
  assume "n < 16"
  then have "n = 0 \<or> n = 1 \<or> n = 2 \<or> n = 3 \<or> n = 4 \<or> n = 5 \<or> n = 6 \<or> n = 7
      \<or> n = 8 \<or> n = 9 \<or> n = 10 \<or> n = 11 \<or> n = 12 \<or> n = 13 \<or> n = 14 \<or> n = 15"
    by arith
  then show ?thesis
    by (elim disjE) (simp_all add: hex_def hexval_def byte_def)
qed

lemma getu4_escape:
  assumes "a < 16" "b < 16" "c < 16" "d < 16"
  shows "getu4 (backslash # CHR ''u'' # hex a # hex b # hex c # hex d # rest)
           = Some (((a * 16 + b) * 16 + c) * 16 + d)"
  using assms by (simp add: hexval_hex)

lemma hex_zero: "hex 0 = CHR ''0''" by (simp add: hex_def)
lemma hex_two: "hex 2 = CHR ''2''" by (simp add: hex_def)

lemma EncodeRune_ascii: "byte c < 0x80 \<Longrightarrow> EncodeRune (byte c) = [c]"
  by (simp add: EncodeRune_def char_of_byte)

lemma scanString_emit:
  "stringStep s = ScanEmit out k \<Longrightarrow>
     scanString s = (case scanString (drop k s) of None \<Rightarrow> None | Some (t, rest) \<Rightarrow> Some (out @ t, rest))"
  by (subst scanString.simps) simp

lemma scanString_end: "scanString (dquote # rest) = Some ([], rest)"
  by (subst scanString.simps) (simp add: stringStep_def)

lemma stringStep_escapeByte:
  assumes "byte c < 0x80"
  shows "stringStep (escapeByte c @ rest) = ScanEmit [c] (length (escapeByte c))"
proof -
  have ctl: "\<And>d. byte c = byte d \<Longrightarrow> c = d" by (simp add: byte_def)
  have u4: "getu4 (backslash # CHR ''u'' # CHR ''0'' # CHR ''0'' # hex (byte c div 16) # hex (byte c mod 16) # rest)
              = Some (byte c)"
    using getu4_escape [of 0 0 "byte c div 16" "byte c mod 16" rest] assms
    by (simp add: hex_zero)
  show ?thesis
  proof (cases "htmlSafe c")
    case True
    then show ?thesis
      by (simp add: escapeByte_def stringStep_def htmlSafe_def)
  next
    case False
    note nsafe = this
    show ?thesis
    proof (cases "c = backslash \<or> c = dquote")
      case True
      with nsafe show ?thesis
        by (auto simp: escapeByte_def stringStep_def unescape_def backslash_def dquote_def)
    next
      case False
      note nq = this
      consider "byte c = 8" | "byte c = 12" | "byte c = 10" | "byte c = 13" | "byte c = 9"
        | "byte c \<noteq> 8 \<and> byte c \<noteq> 12 \<and> byte c \<noteq> 10 \<and> byte c \<noteq> 13 \<and> byte c \<noteq> 9" by blast
      then show ?thesis
      proof cases
        case 1
        with ctl [of "CHR 0x08"] have "c = CHR 0x08" by (simp add: byte_def)
        then show ?thesis
          by (simp add: escapeByte_def stringStep_def unescape_def backslash_def dquote_def
                htmlSafe_def byte_def)
      next
        case 2
        with ctl [of "CHR 0x0C"] have "c = CHR 0x0C" by (simp add: byte_def)
        then show ?thesis
          by (simp add: escapeByte_def stringStep_def unescape_def backslash_def dquote_def
                htmlSafe_def byte_def)
      next
        case 3
        with ctl [of "CHR 0x0A"] have "c = CHR 0x0A" by (simp add: byte_def)
        then show ?thesis
          by (simp add: escapeByte_def stringStep_def unescape_def backslash_def dquote_def
                htmlSafe_def byte_def)
      next
        case 4
        with ctl [of "CHR 0x0D"] have "c = CHR 0x0D" by (simp add: byte_def)
        then show ?thesis
          by (simp add: escapeByte_def stringStep_def unescape_def backslash_def dquote_def
                htmlSafe_def byte_def)
      next
        case 5
        with ctl [of "CHR 0x09"] have "c = CHR 0x09" by (simp add: byte_def)
        then show ?thesis
          by (simp add: escapeByte_def stringStep_def unescape_def backslash_def dquote_def
                htmlSafe_def byte_def)
      next
        case 6
        have esc: "escapeByte c = [backslash, CHR ''u'', CHR ''0'', CHR ''0'', hex (byte c div 16), hex (byte c mod 16)]"
          using nsafe nq 6 by (simp add: escapeByte_def)
        have "\<not> isSurrogate (byte c)" using assms by (simp add: isSurrogate_def)
        then show ?thesis
          using u4 assms
          by (simp add: esc stringStep_def EncodeRune_ascii backslash_def dquote_def)
      qed
    qed
  qed
qed

lemma scanString_escapeByte:
  assumes "byte c < 0x80"
  shows "scanString (escapeByte c @ rest) =
           (case scanString rest of None \<Rightarrow> None | Some (t, r) \<Rightarrow> Some (c # t, r))"
  using scanString_emit [OF stringStep_escapeByte [OF assms, of rest]]
  by (simp split: option.splits)

lemma DecodeRune_ascii: "byte c < 128 \<Longrightarrow> DecodeRune (c # cs) = (byte c, 1)"
  by (simp add: DecodeRune_def)

lemma stringStep_multibyte:
  assumes hi: "128 \<le> byte c" and dec: "DecodeRune (c # cs) = (r, k)"
    and k: "2 \<le> k" "k \<le> Suc (length cs)"
    and pre: "\<forall>rest. DecodeRune (take k (c # cs) @ rest) = (r, k)"
  shows "stringStep (take k (c # cs) @ rest) = ScanEmit (EncodeRune r) k"
proof -
  obtain j where j: "k = Suc j" using k by (cases k) auto
  have s: "take k (c # cs) @ rest = c # (take j cs @ rest)" by (simp add: j)
  have nq: "c \<noteq> dquote" "c \<noteq> backslash"
    using hi by (auto simp: dquote_def backslash_def byte_def)
  from pre have "DecodeRune (c # (take j cs @ rest)) = (r, k)"
    using s by metis
  then show ?thesis
    using hi nq by (simp add: s stringStep_def)
qed

lemma stringStep_separator:
  assumes r: "r = 0x2028 \<or> r = 0x2029"
  shows "stringStep ([backslash, CHR ''u'', CHR ''2'', CHR ''0'', CHR ''2'', hex (r mod 16)] @ rest)
           = ScanEmit (EncodeRune r) 6"
proof -
  have m: "r mod 16 < 16" by simp
  have v: "((2 * 16 + 0) * 16 + 2) * 16 + r mod 16 = r" using r by auto
  have "getu4 (backslash # CHR ''u'' # hex 2 # hex 0 # hex 2 # hex (r mod 16) # rest) = Some r"
    using getu4_escape [of 2 0 2 "r mod 16" rest] v by simp
  then have g: "getu4 (backslash # CHR ''u'' # CHR ''2'' # CHR ''0'' # CHR ''2'' # hex (r mod 16) # rest) = Some r"
    by (simp add: hex_zero hex_two)
  have ns: "\<not> isSurrogate r" using r by (auto simp: isSurrogate_def)
  show ?thesis
    using g ns by (simp add: stringStep_def backslash_def dquote_def)
qed

lemma char_of_replacement:
  "char_of (239::nat) = CHR 0xEF" "char_of (191::nat) = CHR 0xBF" "char_of (189::nat) = CHR 0xBD"
  using char_of_byte [of "CHR 0xEF"] char_of_byte [of "CHR 0xBF"] char_of_byte [of "CHR 0xBD"]
  by (simp_all add: byte_def)

lemma stringStep_replacement:
  "stringStep ([backslash, CHR ''u'', CHR ''f'', CHR ''f'', CHR ''f'', CHR ''d''] @ rest)
     = ScanEmit [CHR 0xEF, CHR 0xBF, CHR 0xBD] 6"
  by (simp add: stringStep_def backslash_def dquote_def hexval_def byte_def isSurrogate_def
        EncodeRune_def char_of_replacement)

lemma scanString_encodeRunes_any:
  "scanString (encodeRunes s @ dquote # rest) = Some (coerceUTF8 s, rest)"
proof (induction s rule: coerceUTF8.induct)
  case 1
  show ?case by (simp add: scanString_end encodeRunes.simps coerceUTF8.simps)
next
  case (2 c cs)
  show ?case
  proof (cases "DecodeRune (c # cs) = (RuneError, 1)")
    case True
    then have hi: "\<not> byte c < 128"
      by (auto simp: DecodeRune_ascii RuneError_def)
    have e: "encodeRunes (c # cs) =
               [backslash, CHR ''u'', CHR ''f'', CHR ''f'', CHR ''f'', CHR ''d''] @ encodeRunes cs"
      using hi True by (simp add: encodeRunes.simps)
    have "scanString ([backslash, CHR ''u'', CHR ''f'', CHR ''f'', CHR ''f'', CHR ''d'']
                        @ encodeRunes cs @ dquote # rest)
            = Some ([CHR 0xEF, CHR 0xBF, CHR 0xBD] @ coerceUTF8 cs, rest)"
      using scanString_emit [OF stringStep_replacement [of "encodeRunes cs @ dquote # rest"]]
        "2.IH"(1) [OF True]
      by simp
    then show ?thesis
      using True by (simp add: e coerceUTF8.simps)
  next
    case ok: False
    note IH = "2.IH"(2) [OF ok]
    show ?thesis
    proof (cases "byte c < 128")
      case True
      then have d: "DecodeRune (c # cs) = (byte c, 1)" by (rule DecodeRune_ascii)
      with IH have "scanString (encodeRunes cs @ dquote # rest) = Some (coerceUTF8 cs, rest)"
        by simp
      then show ?thesis
        using True ok d by (simp add: scanString_escapeByte encodeRunes.simps coerceUTF8.simps)
    next
      case False
      then have hi: "128 \<le> byte c" by simp
      from DecodeRune_multibyte [OF hi ok] obtain r k where
        dec: "DecodeRune (c # cs) = (r, k)" and k: "2 \<le> k" "k \<le> Suc (length cs)"
        and enc: "EncodeRune r = take k (c # cs)"
        and pre: "\<forall>rest. DecodeRune (take k (c # cs) @ rest) = (r, k)"
        by blast
      let ?X = "encodeRunes (drop k (c # cs)) @ dquote # rest"
      from IH dec have IH': "scanString ?X = Some (coerceUTF8 (drop k (c # cs)), rest)" by simp
      have len: "length (take k (c # cs)) = k" using k by simp
      have co: "coerceUTF8 (c # cs) = take k (c # cs) @ coerceUTF8 (drop k (c # cs))"
        using ok dec by (simp add: coerceUTF8.simps)
      show ?thesis
      proof (cases "r = 0x2028 \<or> r = 0x2029")
        case True
        have e: "encodeRunes (c # cs) =
                   [backslash, CHR ''u'', CHR ''2'', CHR ''0'', CHR ''2'', hex (r mod 16)]
                     @ encodeRunes (drop k (c # cs))"
          using False dec k True by (auto simp: Let_def RuneError_def encodeRunes.simps)
        have "scanString ([backslash, CHR ''u'', CHR ''2'', CHR ''0'', CHR ''2'', hex (r mod 16)] @ ?X)
                = Some (EncodeRune r @ coerceUTF8 (drop k (c # cs)), rest)"
          using scanString_emit [OF stringStep_separator [OF True, of ?X]] IH' by simp
        then show ?thesis
          by (simp add: e enc co)
      next
        case nsep: False
        have e: "encodeRunes (c # cs) = take k (c # cs) @ encodeRunes (drop k (c # cs))"
          using False dec k nsep by (auto simp: Let_def encodeRunes.simps)
        have "scanString (take k (c # cs) @ ?X)
                = Some (EncodeRune r @ coerceUTF8 (drop k (c # cs)), rest)"
          using scanString_emit [OF stringStep_multibyte [OF hi dec k pre, of ?X]] IH' len
          by simp
        then show ?thesis
          by (simp add: e enc co)
      qed
    qed
  qed
qed

lemma coerceUTF8_valid: "ValidString s \<Longrightarrow> coerceUTF8 s = s"
proof (induction s rule: ValidString.induct)
  case 1
  show ?case by (simp add: coerceUTF8.simps)
next
  case (2 c cs)
  from "2.prems" have ok: "DecodeRune (c # cs) \<noteq> (RuneError, 1)"
    by (auto simp: ValidString.simps split: if_splits)
  from "2.prems" ok have "ValidString (drop (snd (DecodeRune (c # cs))) (c # cs))"
    by (simp add: ValidString.simps)
  from "2.IH" [OF ok this] ok show ?case
    by (simp add: coerceUTF8.simps)
qed

lemma ValidString_ascii: "\<forall>c \<in> set s. byte c < 128 \<Longrightarrow> ValidString s"
proof (induction s)
  case Nil
  show ?case by (simp add: ValidString.simps)
next
  case (Cons c cs)
  then have "byte c < 128" by simp
  then have "DecodeRune (c # cs) = (byte c, 1)" by (rule DecodeRune_ascii)
  with Cons show ?case by (simp add: RuneError_def ValidString.simps)
qed

lemma valid_tags:
  "ValidString ''user_id''" "ValidString ''activated''"
  "ValidString ''source_language''" "ValidString ''target_language''"
  by (rule ValidString_ascii, simp add: byte_def)+

lemma matchField_self: "matchField name name"
  by (simp add: matchField_def)

lemma matchField_tags:
  "\<not> matchField ''user_id'' ''activated''"
  "\<not> matchField ''user_id'' ''source_language''"
  "\<not> matchField ''user_id'' ''target_language''"
  "\<not> matchField ''activated'' ''source_language''"
  "\<not> matchField ''activated'' ''target_language''"
  "\<not> matchField ''source_language'' ''target_language''"
  by (simp_all add: matchField_def toUpper_def byte_def)

lemma skipSpace_nonspace: "\<not> isSpace c \<Longrightarrow> skipSpace (c # s) = c # s"
  by (simp add: skipSpace_def)

lemma nonspace:
  "\<not> isSpace dquote" "\<not> isSpace (CHR '':'')" "\<not> isSpace (CHR '','')" "\<not> isSpace (CHR ''}'')"
  "\<not> isSpace (CHR ''{'')" "\<not> isSpace (CHR ''t'')" "\<not> isSpace (CHR ''f'')"
  by (simp_all add: isSpace_def dquote_def)

lemma dquote_neq:
  "dquote \<noteq> CHR ''{''" "dquote \<noteq> CHR ''[''" "dquote \<noteq> CHR '':''" "dquote \<noteq> CHR '',''"
  "dquote \<noteq> CHR ''}''"
  by (simp_all add: dquote_def)

lemma parseValue_string:
  "parseValue (Suc n) (dquote # encodeRunes v @ dquote # rest) = Some (JString (coerceUTF8 v), rest)"
  by (simp add: scanString_encodeRunes_any dquote_neq)

lemma parseValue_bool:
  "parseValue (Suc n) (encodeBool a @ rest) = Some (JBool a, rest)"
  by (simp add: encodeBool_def stripPrefix_def dquote_def)

lemma skipSpace_bool: "skipSpace (encodeBool a @ rest) = encodeBool a @ rest"
  by (simp add: encodeBool_def skipSpace_def isSpace_def)

lemma parseMembers_string_last:
  "parseMembers (Suc (Suc n))
     (dquote # encodeRunes k @ dquote # CHR '':'' # dquote # encodeRunes v @ dquote
        # CHR ''}'' # rest)
   = Some ([(coerceUTF8 k, JString (coerceUTF8 v))], rest)"
  by (simp add: scanString_encodeRunes_any skipSpace_nonspace nonspace parseValue_string
        del: parseValue.simps)

lemma parseMembers_string_more:
  "parseMembers (Suc (Suc n))
     (dquote # encodeRunes k @ dquote # CHR '':'' # dquote # encodeRunes v @ dquote
        # CHR '','' # dquote # xs)
   = (case parseMembers (Suc n) (dquote # xs) of
        None \<Rightarrow> None
      | Some (ms, r) \<Rightarrow> Some ((coerceUTF8 k, JString (coerceUTF8 v)) # ms, r))"
  by (subst parseMembers.simps(2))
     (simp add: scanString_encodeRunes_any skipSpace_nonspace nonspace parseValue_string
        del: parseValue.simps parseMembers.simps)

lemma parseMembers_bool_more:
  "parseMembers (Suc (Suc n))
     (dquote # encodeRunes k @ dquote # CHR '':'' # encodeBool a @ CHR '','' # dquote # xs)
   = (case parseMembers (Suc n) (dquote # xs) of
        None \<Rightarrow> None
      | Some (ms, r) \<Rightarrow> Some ((coerceUTF8 k, JBool a) # ms, r))"
  by (subst parseMembers.simps(2))
     (simp add: scanString_encodeRunes_any skipSpace_nonspace nonspace parseValue_bool skipSpace_bool
        del: parseValue.simps parseMembers.simps)


lemma coerce_tags:
  "coerceUTF8 ''user_id'' = ''user_id''" "coerceUTF8 ''activated'' = ''activated''"
  "coerceUTF8 ''source_language'' = ''source_language''"
  "coerceUTF8 ''target_language'' = ''target_language''"
  by (simp_all only: coerceUTF8_valid [OF valid_tags(1)] coerceUTF8_valid [OF valid_tags(2)]
        coerceUTF8_valid [OF valid_tags(3)] coerceUTF8_valid [OF valid_tags(4)])

lemma parse_marshalled:
  "parseValue (Suc (Suc (Suc (Suc (Suc (Suc n))))))
     (CHR ''{'' # dquote # encodeRunes ''user_id'' @ dquote # CHR '':''
        # dquote # encodeRunes uid @ dquote # CHR '',''
        # dquote # encodeRunes ''activated'' @ dquote # CHR '':''
        # encodeBool a @ CHR '',''
        # dquote # encodeRunes ''source_language'' @ dquote # CHR '':''
        # dquote # encodeRunes src @ dquote # CHR '',''
        # dquote # encodeRunes ''target_language'' @ dquote # CHR '':''
        # dquote # encodeRunes tgt @ dquote # CHR ''}'' # rest)
   = Some (JObject [(''user_id'', JString (coerceUTF8 uid)), (''activated'', JBool a),
                    (''source_language'', JString (coerceUTF8 src)),
                    (''target_language'', JString (coerceUTF8 tgt))],
           rest)"
  by (subst parseValue.simps(2))
     (simp add: skipSpace_nonspace nonspace dquote_neq coerce_tags
        parseMembers_string_more parseMembers_bool_more parseMembers_string_last
        del: parseValue.simps parseMembers.simps)

lemma decode_members:
  "decodeInto (JObject [(''user_id'', JString uid), (''activated'', JBool a),
                        (''source_language'', JString src), (''target_language'', JString tgt)])
     zeroUserInfo
   = (\<lparr>UserID = uid, Activated = a, SourceLanguage = src, TargetLanguage = tgt\<rparr>, False)"
  by (simp add: decodeInto_def setField_def matchField_self matchField_tags zeroUserInfo_def)

text \<open>
  Decoding what \<^verbatim>\<open>json.Marshal\<close> wrote for a \<^verbatim>\<open>UserInfo\<close> gives the struct back with
  every string coerced to valid UTF-8, through \<^verbatim>\<open>Unmarshal\<close> and through a \<^verbatim>\<open>Decoder\<close>.
\<close>

lemma parse_Marshal:
  assumes b: "Marshal_UserInfo u = Inr b"
  shows "parseValue (parseFuel b) (skipSpace b) =
          Some (JObject [(''user_id'', JString (coerceUTF8 (UserID u))),
                         (''activated'', JBool (Activated u)),
                         (''source_language'', JString (coerceUTF8 (UserInfo.SourceLanguage u))),
                         (''target_language'', JString (coerceUTF8 (UserInfo.TargetLanguage u)))],
                [])"
proof -
  from b have shape:
    "b = CHR ''{'' # dquote # encodeRunes ''user_id'' @ dquote # CHR '':''
              # dquote # encodeRunes (UserID u) @ dquote # CHR '',''
              # dquote # encodeRunes ''activated'' @ dquote # CHR '':''
              # encodeBool (Activated u) @ CHR '',''
              # dquote # encodeRunes ''source_language'' @ dquote # CHR '':''
              # dquote # encodeRunes (UserInfo.SourceLanguage u) @ dquote # CHR '',''
              # dquote # encodeRunes ''target_language'' @ dquote # CHR '':''
              # dquote # encodeRunes (UserInfo.TargetLanguage u) @ dquote # CHR ''}'' # []"
    by (auto simp: Marshal_UserInfo_def appendString_def)
  from shape obtain t where t: "b = CHR ''{'' # t" by blast
  define n where "n = 2 * length t"
  have "parseFuel b = n + 4" by (simp add: parseFuel_def n_def t)
  moreover have "2 \<le> n" using shape t by (simp add: n_def)
  ultimately obtain m where fuel: "parseFuel b = Suc (Suc (Suc (Suc (Suc (Suc m)))))"
    by (metis add_2_eq_Suc' le_Suc_ex numeral_Bit0 add_Suc_right add.commute add_Suc)
  have sk: "skipSpace b = b" by (simp add: t skipSpace_nonspace nonspace)
  show ?thesis
    unfolding sk fuel by (subst shape) (rule parse_marshalled)
qed

lemma skipSpace_Nil: "skipSpace [] = []"
  by (simp add: skipSpace_def)

lemma Unmarshal_Marshal:
  "Marshal_UserInfo u = Inr b \<Longrightarrow> Unmarshal_UserInfo b = Inr (coerced u)"
  by (simp add: Unmarshal_UserInfo_def parse_Marshal decode_members skipSpace_Nil coerced_def)

lemma Decode_Marshal:
  "Marshal_UserInfo u = Inr b \<Longrightarrow> Decode_UserInfo b = Some (coerced u)"
  by (simp add: Decode_UserInfo_def parse_Marshal decode_members coerced_def)

lemma coerced_valid:
  assumes "ValidString (UserID u)" "ValidString (UserInfo.SourceLanguage u)"
    and "ValidString (UserInfo.TargetLanguage u)"
  shows "coerced u = u"
  using assms by (cases u) (simp add: coerced_def coerceUTF8_valid)

lemma getUserInfo_after_setUserInfo:
  assumes set: "setUserInfo e p w = (w', None)" and rd: "KVGet_err e (UserID p) = None"
  shows "getUserInfo e (UserID p) w' = Inr (coerced p)"
proof -
  obtain b where b: "Marshal_UserInfo p = Inr b" by (simp add: Marshal_UserInfo_def)
  from set b have "kv w' (UserID p) = Some b"
    by (auto simp: setUserInfo_def KVSet_def emitUserInfoChange_def PublishWebSocketEvent_def
             split: option.splits)
  then show ?thesis
    using rd Unmarshal_Marshal [OF b] by (simp add: getUserInfo_def KVGet_def)
qed

section \<open>Facts about these inputs\<close>

lemma length_user0: "length user0 = 26"
  by (simp add: user0_def)

lemma user0_nonempty: "user0 \<noteq> []"
  using length_user0 by auto

lemma ValidString_user0: "ValidString user0"
  by (rule ValidString_ascii) (simp add: user0_def byte_def)

lemma ValidString_en_fr: "ValidString ''en''" "ValidString ''fr''"
  by (rule ValidString_ascii, simp add: byte_def)+

lemma IsValid_pref_en_fr: "IsValid env0 pref_en_fr = None"
  by (simp add: IsValid_def pref_en_fr_def length_user0 user0_nonempty languageCodes_at_def
        env0_def catalog0_def autoLanguage_def)

lemma setUserInfo_accepts:
  assumes "IsValid e p = None" and "\<And>v. KVSet_err e (UserID p) v = None"
  shows "setUserInfo e p w = (fst (setUserInfo e p w), None)"
  using assms by (simp add: setUserInfo_def Marshal_UserInfo_def KVSet_def)

lemma env0_store: "KVSet_err env0 k v = None" "KVGet_err env0 k = None"
  by (simp_all add: env0_def)

lemma setUserInfo_pref_en_fr: "setUserInfo env0 pref_en_fr world0 = (world_en_fr, None)"
  unfolding world_en_fr_def by (rule setUserInfo_accepts [OF IsValid_pref_en_fr env0_store(1)])

lemma getUserInfo_world_en_fr:
  "KVGet_err e user0 = None \<Longrightarrow> getUserInfo e user0 world_en_fr = Inr pref_en_fr"
proof -
  assume rd: "KVGet_err e user0 = None"
  have c: "coerced pref_en_fr = pref_en_fr"
    by (rule coerced_valid) (simp_all add: pref_en_fr_def ValidString_user0 ValidString_en_fr)
  have "getUserInfo env0 (UserID pref_en_fr) world_en_fr = Inr (coerced pref_en_fr)"
    by (rule getUserInfo_after_setUserInfo [OF setUserInfo_pref_en_fr env0_store(2)])
  then have "getUserInfo env0 user0 world_en_fr = Inr pref_en_fr"
    by (simp add: c) (simp add: pref_en_fr_def)
  then show ?thesis
    using rd by (simp add: getUserInfo_def KVGet_def env0_def)
qed


lemma getUserInfo_world_off: "getUserInfo env0 user0 world_off = Inr pref_off"
proof -
  have "IsValid env0 (pref_en_fr\<lparr>Activated := False\<rparr>) = IsValid env0 pref_en_fr"
    by (simp add: IsValid_def)
  then have v: "IsValid env0 pref_off = None"
    by (simp add: pref_off_def IsValid_pref_en_fr)
  have s: "setUserInfo env0 pref_off world0 = (world_off, None)"
    unfolding world_off_def by (rule setUserInfo_accepts [OF v env0_store(1)])
  have c: "coerced pref_off = pref_off"
    by (rule coerced_valid)
       (simp_all add: pref_off_def pref_en_fr_def ValidString_user0 ValidString_en_fr)
  have "getUserInfo env0 (UserID pref_off) world_off = Inr (coerced pref_off)"
    by (rule getUserInfo_after_setUserInfo [OF s env0_store(2)])
  then show ?thesis
    by (simp add: c) (simp add: pref_off_def pref_en_fr_def)
qed

lemma post0_simps: "UserId post0 = user0" "Post.Message post0 = ''Hello''"
  by (simp_all add: post0_def)

lemma IsValid_default: "IsValid env0 (NewUserInfo user0) = None"
  by (simp add: IsValid_def NewUserInfo_def length_user0 user0_nonempty languageCodes_at_def
        env0_def catalog0_def autoLanguage_def enLanguage_def)

lemma getUserInfo_world_auto:
  "KVGet_err e user0 = None \<Longrightarrow> getUserInfo e user0 world_auto = Inr (NewUserInfo user0)"
proof -
  assume rd: "KVGet_err e user0 = None"
  have s: "setUserInfo env0 (NewUserInfo user0) world0 = (world_auto, None)"
    unfolding world_auto_def by (rule setUserInfo_accepts [OF IsValid_default env0_store(1)])
  have v: "ValidString ''auto''" by (rule ValidString_ascii) (simp add: byte_def)
  have c: "coerced (NewUserInfo user0) = NewUserInfo user0"
    by (rule coerced_valid)
       (simp_all add: NewUserInfo_def ValidString_user0 ValidString_en_fr v autoLanguage_def
          enLanguage_def)
  have "getUserInfo env0 (UserID (NewUserInfo user0)) world_auto = Inr (coerced (NewUserInfo user0))"
    by (rule getUserInfo_after_setUserInfo [OF s env0_store(2)])
  then have "getUserInfo env0 user0 world_auto = Inr (NewUserInfo user0)"
    by (simp add: c) (simp add: NewUserInfo_def)
  then show ?thesis
    using rd by (simp add: getUserInfo_def KVGet_def env0_store)
qed

lemma Sprintf_translatedFormat:
  "Sprintf translatedFormat [a, b, c, d] =
     a @ [CHR 0x0A, CHR 0x0A] @ ''(Translated: '' @ b @ '' '' @ [CHR 0xE2, CHR 0x86, CHR 0x92]
       @ '' '' @ c @ '')'' @ [CHR 0x0A] @ d"
  by (simp add: translatedFormat_def)

lemma calls_world_en_fr: "calls world_en_fr = []"
  by (simp add: world_en_fr_def setUserInfo_def IsValid_pref_en_fr Marshal_UserInfo_def KVSet_def
        env0_store emitUserInfoChange_def PublishWebSocketEvent_def world0_def)

lemma translateText_env0:
  "translateText env0 txt s t w = (w\<lparr>calls := calls w @ [TranslateText txt s t]\<rparr>, Return (Inr ''Bonjour''))"
  by (simp add: translateText_def env0_def remote_def)

lemma req_go_simps:
  "Get (ReqHeader (req_go s t)) ''Mattermost-User-ID'' = user0"
  "Get (URL_Query (req_go s t)) ''post_id'' = ''p1''"
  "Get (URL_Query (req_go s t)) ''source'' = s"
  "Get (URL_Query (req_go s t)) ''target'' = t"
  by (simp_all add: req_go_def Get_def)

lemma Marshal_pref_en_fr: "Marshal_UserInfo pref_en_fr = Inr body_en_fr"
  by (simp add: body_en_fr_def Marshal_UserInfo_def)

lemma Decode_body_en_fr: "Decode_UserInfo body_en_fr = Some pref_en_fr"
proof -
  have "coerced pref_en_fr = pref_en_fr"
    by (rule coerced_valid) (simp_all add: pref_en_fr_def ValidString_user0 ValidString_en_fr)
  with Decode_Marshal [OF Marshal_pref_en_fr] show ?thesis by simp
qed

lemma unconfigured_IsValid: "IsValid env_unconfigured p = IsValid env0 p"
  by (simp add: env_unconfigured_def IsValid_def languageCodes_at_def)

lemma unconfigured_KVSet: "KVSet env_unconfigured k v w = KVSet env0 k v w"
  by (simp add: env_unconfigured_def KVSet_def)

lemma unconfigured_setUserInfo: "setUserInfo env_unconfigured p w = setUserInfo env0 p w"
  by (simp add: setUserInfo_def unconfigured_IsValid unconfigured_KVSet
        split: option.splits sum.splits)

lemma kv_world_en_fr: "kv world_en_fr user0 = Some body_en_fr"
  by (simp add: world_en_fr_def setUserInfo_def IsValid_pref_en_fr Marshal_pref_en_fr KVSet_def
        env0_store emitUserInfoChange_def PublishWebSocketEvent_def)
     (simp add: pref_en_fr_def)

lemma events_world_en_fr:
  "events world_en_fr =
     [\<lparr>event = ''info_change'', payload_user_id = user0, payload_activated = True,
       payload_source_language = ''en'', payload_target_language = ''fr'',
       broadcast_UserId = user0\<rparr>]"
  by (simp add: world_en_fr_def setUserInfo_def IsValid_pref_en_fr Marshal_pref_en_fr KVSet_def
        env0_store emitUserInfoChange_def PublishWebSocketEvent_def world0_def)
     (simp add: pref_en_fr_def)

lemma encodeRunes_plain:
  "\<forall>c \<in> set s. htmlSafe c \<Longrightarrow> encodeRunes s = s"
proof (induction s)
  case Nil
  show ?case by (simp add: encodeRunes.simps)
next
  case (Cons c cs)
  then have "htmlSafe c" by simp
  then have "byte c < 128" by (simp add: htmlSafe_def)
  with Cons \<open>htmlSafe c\<close> show ?case by (simp add: encodeRunes.simps escapeByte_def)
qed

lemma body_en_fr_text:
  "body_en_fr = (''{'' @ [CHR 0x22] @ ''user_id'' @ [CHR 0x22] @ '':'' @ [CHR 0x22] @ ''uuuuuuuuuuuuuuuuuuuuuuuuuu'' @ [CHR 0x22] @ '','' @ [CHR 0x22] @ ''activated'' @ [CHR 0x22] @ '':true,'' @ [CHR 0x22] @ ''source_language'' @ [CHR 0x22] @ '':'' @ [CHR 0x22] @ ''en'' @ [CHR 0x22] @ '','' @ [CHR 0x22] @ ''target_language'' @ [CHR 0x22] @ '':'' @ [CHR 0x22] @ ''fr'' @ [CHR 0x22] @ ''}'')"
proof -
  have p: "encodeRunes ''user_id'' = ''user_id''" "encodeRunes ''activated'' = ''activated''"
    "encodeRunes ''source_language'' = ''source_language''"
    "encodeRunes ''target_language'' = ''target_language''"
    "encodeRunes ''en'' = ''en''" "encodeRunes ''fr'' = ''fr''"
    "encodeRunes user0 = user0"
    by (rule encodeRunes_plain, simp add: htmlSafe_def byte_def dquote_def backslash_def user0_def)+
  show ?thesis
    by (simp add: body_en_fr_def Marshal_UserInfo_def pref_en_fr_def appendString_def p
          encodeBool_def dquote_def)
       (simp add: user0_def eval_nat_numeral)
qed

section \<open>The claims\<close>

text \<open>
  C1, as amended. Whenever the hook returns, its rejection reason is empty or one of two
  texts. It is \<^verbatim>\<open>Failed to detect language\<close> exactly when the preference is activated
  with source \<^verbatim>\<open>auto\<close> and \<^verbatim>\<open>detectLanguage\<close> returns an error, and
  \<^verbatim>\<open>Failed to translate message\<close> exactly when \<^verbatim>\<open>translateText\<close> is called (the resolved
  source differs from the target) and returns an error. With a non-empty reason the post
  is returned unmodified.
\<close>

theorem hook_rejection_reason:
  assumes "MessageWillBePosted e post w = (w', Return (post', reason))"
  shows "(reason = [] \<or> reason = ''Failed to detect language''
            \<or> reason = ''Failed to translate message'')
       \<and> (reason \<noteq> [] \<longrightarrow> post' = post)
       \<and> (reason = ''Failed to detect language'' \<longleftrightarrow>
            (\<exists>ui err. getUserInfo e (UserId post) w = Inr ui \<and> Activated ui
               \<and> UserInfo.SourceLanguage ui = ''auto''
               \<and> detectLanguage e (Post.Message post) w = (w', Return (Inl err))))
       \<and> (reason = ''Failed to translate message'' \<longleftrightarrow>
            (\<exists>ui src w0 err. getUserInfo e (UserId post) w = Inr ui \<and> Activated ui
               \<and> (if UserInfo.SourceLanguage ui = ''auto''
                   then detectLanguage e (Post.Message post) w = (w0, Return (Inr src))
                   else src = UserInfo.SourceLanguage ui \<and> w0 = w)
               \<and> src \<noteq> UserInfo.TargetLanguage ui
               \<and> translateText e (Post.Message post) src (UserInfo.TargetLanguage ui) w0
                    = (w', Return (Inl err))))"
proof (cases "getUserInfo e (UserId post) w")
  case (Inl err)
  with assms show ?thesis by (simp add: MessageWillBePosted_def)
next
  case (Inr ui)
  note ui = this
  show ?thesis
  proof (cases "Activated ui")
    case False
    with assms ui show ?thesis by (simp add: MessageWillBePosted_def)
  next
    case True
    note act = this
    have tr: "\<And>src w0. postWithTranslation e post src (UserInfo.TargetLanguage ui) w0
                       = (w', Return (post', reason)) \<Longrightarrow>
               (reason = [] \<or> reason = ''Failed to translate message'')
               \<and> (reason \<noteq> [] \<longrightarrow> post' = post)
               \<and> (reason = ''Failed to translate message'' \<longleftrightarrow>
                    (src \<noteq> UserInfo.TargetLanguage ui
                     \<and> (\<exists>err. translateText e (Post.Message post) src (UserInfo.TargetLanguage ui) w0
                            = (w', Return (Inl err)))))"
      by (auto simp: postWithTranslation_def Let_def
               split: if_splits prod.splits outcome.splits sum.splits)
    show ?thesis
    proof (cases "UserInfo.SourceLanguage ui = ''auto''")
      case False
      with assms ui act
      have "postWithTranslation e post (UserInfo.SourceLanguage ui) (UserInfo.TargetLanguage ui) w
              = (w', Return (post', reason))"
        by (simp add: MessageWillBePosted_def autoLanguage_def)
      from tr [OF this] ui act False show ?thesis by auto
    next
      case True
      note auto_src = this
      obtain w1 d where det: "detectLanguage e (Post.Message post) w = (w1, d)"
        by (cases "detectLanguage e (Post.Message post) w")
      show ?thesis
      proof (cases d)
        case Panic
        with assms ui act auto_src det show ?thesis
          by (simp add: MessageWillBePosted_def autoLanguage_def)
      next
        case (Return res)
        show ?thesis
        proof (cases res)
          case (Inl err)
          with assms ui act auto_src det Return show ?thesis
            by (auto simp: MessageWillBePosted_def autoLanguage_def)
        next
          case (Inr detected)
          with assms ui act auto_src det Return
          have "postWithTranslation e post detected (UserInfo.TargetLanguage ui) w1
                  = (w', Return (post', reason))"
            by (simp add: MessageWillBePosted_def autoLanguage_def)
          from tr [OF this] ui act auto_src det Return Inr show ?thesis by auto
        qed
      qed
    qed
  qed
qed

theorem hook_rejection_reason_instance:
  "MessageWillBePosted env_detect_fails post0 world_auto
     = (world_auto\<lparr>calls := [DetectDominantLanguage ''Hello'']\<rparr>,
        Return (post0, ''Failed to detect language''))
   \<and> detectLanguage env_detect_fails (Post.Message post0) world_auto
     = (world_auto\<lparr>calls := [DetectDominantLanguage ''Hello'']\<rparr>,
        Return (Inl ''Failed to detect language''))"
proof -
  have g: "getUserInfo env_detect_fails (UserId post0) world_auto = Inr (NewUserInfo user0)"
    by (simp add: post0_simps getUserInfo_world_auto env_detect_fails_def env0_store)
  have c: "calls world_auto = []"
    by (simp add: world_auto_def setUserInfo_def IsValid_default Marshal_UserInfo_def KVSet_def
          env0_store emitUserInfoChange_def PublishWebSocketEvent_def world0_def)
  have d: "detectLanguage env_detect_fails (Post.Message post0) world_auto
     = (world_auto\<lparr>calls := [DetectDominantLanguage ''Hello'']\<rparr>,
        Return (Inl ''Failed to detect language''))"
    by (simp add: detectLanguage_def env_detect_fails_def env0_def remote_def c post0_simps)
  have h: "MessageWillBePosted env_detect_fails post0 world_auto
     = (world_auto\<lparr>calls := [DetectDominantLanguage ''Hello'']\<rparr>,
        Return (post0, ''Failed to detect language''))"
    using g d by (simp add: MessageWillBePosted_def NewUserInfo_def)
  from hook_rejection_reason [OF h] d h show ?thesis by simp
qed

text \<open>
  C1 as stated fails: when detection fails the hook returns a rejection reason that is
  not empty.
\<close>

theorem hook_rejects_when_detection_fails:
  "snd (MessageWillBePosted env_detect_fails post0 world_auto)
     = Return (post0, ''Failed to detect language'')"
proof -
  have g: "getUserInfo env_detect_fails (UserId post0) world_auto = Inr (NewUserInfo user0)"
    by (simp add: post0_simps getUserInfo_world_auto env_detect_fails_def env0_store)
  have d: "snd (detectLanguage env_detect_fails (Post.Message post0) world_auto)
     = Return (Inl ''Failed to detect language'')"
    by (simp add: detectLanguage_def env_detect_fails_def env0_def remote_def)
  show ?thesis
    using g d
    by (cases "detectLanguage env_detect_fails (Post.Message post0) world_auto")
       (simp add: MessageWillBePosted_def NewUserInfo_def)
qed

text \<open>
  C2. The code does not do what the claim says: with a plugin that is not configured,
  \<^verbatim>\<open>ServeHTTP\<close> writes the answer 501 and then routes the request all the same. Here a
  request to \<^verbatim>\<open>/api/set_info\<close> is validated, the preference is stored under the user's
  key and the event \<^verbatim>\<open>info_change\<close> is published; the answer has status 501 and, after
  the text of the error, the JSON of the stored preference.
\<close>

theorem ServeHTTP_unconfigured_still_routes:
  "Plugin_IsValid env_unconfigured = Some ''not configured''
   \<and> URL_Path req_set = ''/api/set_info''
   \<and> ReqBody req_set =
         (''{'' @ [CHR 0x22] @ ''user_id'' @ [CHR 0x22] @ '':'' @ [CHR 0x22] @ ''uuuuuuuuuuuuuuuuuuuuuuuuuu'' @ [CHR 0x22] @ '','' @ [CHR 0x22] @ ''activated'' @ [CHR 0x22] @ '':true,'' @ [CHR 0x22] @ ''source_language'' @ [CHR 0x22] @ '':'' @ [CHR 0x22] @ ''en'' @ [CHR 0x22] @ '','' @ [CHR 0x22] @ ''target_language'' @ [CHR 0x22] @ '':'' @ [CHR 0x22] @ ''fr'' @ [CHR 0x22] @ ''}'')
   \<and> kv world0 user0 = None \<and> events world0 = []
   \<and> fst (ServeHTTP env_unconfigured req_set newResponseWriter world0) = world_en_fr
   \<and> kv world_en_fr user0 = Some body_en_fr
   \<and> events world_en_fr =
        [\<lparr>event = ''info_change'', payload_user_id = user0, payload_activated = True,
          payload_source_language = ''en'', payload_target_language = ''fr'',
          broadcast_UserId = user0\<rparr>]
   \<and> (\<exists>rw. snd (ServeHTTP env_unconfigured req_set newResponseWriter world0) = Return rw
          \<and> status rw = Some 501
          \<and> written rw = ''This plugin is not configured.'' @ [CHR 0x0A] @ body_en_fr)"
proof -
  have a: "Plugin_IsValid env_unconfigured = Some ''not configured''"
    by (simp add: env_unconfigured_def)
  have h: "Get (ReqHeader req_set) ''Mattermost-User-ID'' = user0" "ReqBody req_set = body_en_fr"
    "URL_Path req_set = ''/api/set_info''"
    by (simp_all add: req_set_def Get_def)
  have u: "UserID pref_en_fr = user0" by (simp add: pref_en_fr_def)
  have s: "setInfo env_unconfigured req_set rw world0
             = (world_en_fr, Return (Write body_en_fr rw))" for rw
    by (simp add: setInfo_def h user0_nonempty Decode_body_en_fr unconfigured_IsValid
          unconfigured_setUserInfo IsValid_pref_en_fr u setUserInfo_pref_en_fr writeJSON_def
          Marshal_pref_en_fr)
  have r: "ServeHTTP env_unconfigured req_set newResponseWriter world0
             = (world_en_fr,
                Return (Write body_en_fr
                  (Header_Set ''Content-Type'' ''application/json''
                    (http_Error newResponseWriter ''This plugin is not configured.''
                       StatusNotImplemented))))"
    by (simp add: ServeHTTP_def a h s Let_def)
  have w0: "kv world0 user0 = None" "events world0 = []"
    by (simp_all add: world0_def)
  have st: "status (Write body_en_fr
                  (Header_Set ''Content-Type'' ''application/json''
                    (http_Error newResponseWriter ''This plugin is not configured.''
                       StatusNotImplemented))) = Some 501"
    by (simp add: Write_def WriteHeader_def Header_Set_def http_Error_def newResponseWriter_def
          StatusNotImplemented_def StatusOK_def Let_def)
  have wr: "written (Write body_en_fr
                  (Header_Set ''Content-Type'' ''application/json''
                    (http_Error newResponseWriter ''This plugin is not configured.''
                       StatusNotImplemented)))
              = ''This plugin is not configured.'' @ [CHR 0x0A] @ body_en_fr"
    by (simp add: Write_def WriteHeader_def Header_Set_def http_Error_def newResponseWriter_def
          StatusNotImplemented_def StatusOK_def Let_def)
  have bd: "ReqBody req_set =
         (''{'' @ [CHR 0x22] @ ''user_id'' @ [CHR 0x22] @ '':'' @ [CHR 0x22] @ ''uuuuuuuuuuuuuuuuuuuuuuuuuu'' @ [CHR 0x22] @ '','' @ [CHR 0x22] @ ''activated'' @ [CHR 0x22] @ '':true,'' @ [CHR 0x22] @ ''source_language'' @ [CHR 0x22] @ '':'' @ [CHR 0x22] @ ''en'' @ [CHR 0x22] @ '','' @ [CHR 0x22] @ ''target_language'' @ [CHR 0x22] @ '':'' @ [CHR 0x22] @ ''fr'' @ [CHR 0x22] @ ''}'')"
    using h(2) body_en_fr_text by simp
  from a h(3) bd w0 r st wr kv_world_en_fr events_world_en_fr show ?thesis
    by (simp only: fst_conv snd_conv) blast
qed




text \<open>
  C4. When the hook translates (an activated preference, the resolved source different
  from the target, a translation that differs from the text), the message it returns is
  the original text, an empty line, the header \<^verbatim>\<open>(Translated: S -> T)\<close> with the arrow
  U+2192 and with \<^verbatim>\<open>S\<close> and \<^verbatim>\<open>T\<close> the names of source and target in \<^verbatim>\<open>languageCodes\<close>
  (the code itself where the table has no entry), a line break and the translation; the
  rejection reason is empty. In particular \<^verbatim>\<open>Hello\<close> from \<^verbatim>\<open>en\<close> to \<^verbatim>\<open>fr\<close> with the
  translation \<^verbatim>\<open>Bonjour\<close> gives the text of the spec's scenario.
\<close>

theorem hook_annotates_translation:
  "(getUserInfo e (UserId post) w = Inr ui \<and> Activated ui
      \<and> (if UserInfo.SourceLanguage ui = ''auto''
          then detectLanguage e (Post.Message post) w = (w0, Return (Inr src))
          else src = UserInfo.SourceLanguage ui \<and> w0 = w)
      \<and> src \<noteq> UserInfo.TargetLanguage ui
      \<and> translateText e (Post.Message post) src (UserInfo.TargetLanguage ui) w0
           = (w1, Return (Inr translated))
      \<and> translated \<noteq> Post.Message post
    \<longrightarrow> MessageWillBePosted e post w =
          (w1, Return
            (post\<lparr>Post.Message :=
               Post.Message post @ [CHR 0x0A, CHR 0x0A] @ ''(Translated: ''
                 @ (case languageCodes e src of Some name \<Rightarrow> name | None \<Rightarrow> src)
                 @ '' '' @ [CHR 0xE2, CHR 0x86, CHR 0x92] @ '' ''
                 @ (case languageCodes e (UserInfo.TargetLanguage ui) of
                      Some name \<Rightarrow> name | None \<Rightarrow> UserInfo.TargetLanguage ui)
                 @ '')'' @ [CHR 0x0A] @ translated\<rparr>,
             [])))
   \<and> (getUserInfo e (UserId post) w = Inr ui \<and> Activated ui
      \<and> UserInfo.SourceLanguage ui = ''en'' \<and> UserInfo.TargetLanguage ui = ''fr''
      \<and> languageCodes e ''en'' = Some ''English'' \<and> languageCodes e ''fr'' = Some ''French''
      \<and> Post.Message post = ''Hello''
      \<and> translateText e ''Hello'' ''en'' ''fr'' w = (w1, Return (Inr ''Bonjour''))
    \<longrightarrow> MessageWillBePosted e post w =
          (w1, Return
            (post\<lparr>Post.Message :=
               ''Hello'' @ [CHR 0x0A, CHR 0x0A] @ ''(Translated: English ''
                 @ [CHR 0xE2, CHR 0x86, CHR 0x92] @ '' French)'' @ [CHR 0x0A] @ ''Bonjour''\<rparr>,
             [])))"
  by (auto simp: MessageWillBePosted_def postWithTranslation_def Sprintf_translatedFormat
        autoLanguage_def Let_def split: option.splits)

theorem hook_annotates_translation_instance:
  "MessageWillBePosted env0 post0 world_en_fr =
     (world_en_fr\<lparr>calls := [TranslateText ''Hello'' ''en'' ''fr'']\<rparr>,
      Return
        (post0\<lparr>Post.Message :=
           ''Hello'' @ [CHR 0x0A, CHR 0x0A] @ ''(Translated: English ''
             @ [CHR 0xE2, CHR 0x86, CHR 0x92] @ '' French)'' @ [CHR 0x0A] @ ''Bonjour''\<rparr>,
         []))"
proof -
  have g: "getUserInfo env0 (UserId post0) world_en_fr = Inr pref_en_fr"
    by (simp add: post0_simps getUserInfo_world_en_fr env0_store)
  have t: "translateText env0 ''Hello'' ''en'' ''fr'' world_en_fr
             = (world_en_fr\<lparr>calls := [TranslateText ''Hello'' ''en'' ''fr'']\<rparr>,
                Return (Inr ''Bonjour''))"
    by (simp add: translateText_env0 calls_world_en_fr)
  have p: "Activated pref_en_fr" "UserInfo.SourceLanguage pref_en_fr = ''en''"
    "UserInfo.TargetLanguage pref_en_fr = ''fr''"
    by (simp_all add: pref_en_fr_def)
  have c: "languageCodes env0 ''en'' = Some ''English''" "languageCodes env0 ''fr'' = Some ''French''"
    by (simp_all add: env0_def catalog0_def)
  from hook_annotates_translation
         [of env0 post0 world_en_fr pref_en_fr world_en_fr "''en''"
             "world_en_fr\<lparr>calls := [TranslateText ''Hello'' ''en'' ''fr'']\<rparr>" "''Bonjour''"]
       g t p c post0_simps(2)
  show ?thesis by simp
qed

text \<open>
  C5. A preference whose source language equals its target language, and a preference
  whose target language is \<^verbatim>\<open>auto\<close>, is refused by \<^verbatim>\<open>setUserInfo\<close> with the validation
  error \<^verbatim>\<open>invalid_user_info\<close> (status 400, the message of \<^verbatim>\<open>IsValid\<close>); the state is
  returned as it was: nothing is stored and no event is published.
\<close>

theorem setUserInfo_refuses_equal_languages_and_auto_target:
  assumes "UserInfo.SourceLanguage u = UserInfo.TargetLanguage u \<or> UserInfo.TargetLanguage u = ''auto''"
  shows "\<exists>msg. IsValid e u = Some msg
           \<and> setUserInfo e u w =
               (w, Some \<lparr>ID = ''invalid_user_info'', Message = msg, StatusCode = 400\<rparr>)"
proof -
  from assms have "IsValid e u \<noteq> None"
    by (auto simp: IsValid_def autoLanguage_def)
  then obtain msg where "IsValid e u = Some msg" by auto
  then show ?thesis
    by (simp add: setUserInfo_def StatusBadRequest_def)
qed

theorem setUserInfo_refuses_instance:
  "(\<exists>msg. IsValid env0 (NewUserInfo user0\<lparr>UserInfo.TargetLanguage := ''auto''\<rparr>) = Some msg
      \<and> setUserInfo env0 (NewUserInfo user0\<lparr>UserInfo.TargetLanguage := ''auto''\<rparr>) world0 =
          (world0, Some \<lparr>ID = ''invalid_user_info'', Message = msg, StatusCode = 400\<rparr>))
   \<and> (\<exists>msg. IsValid env0 (pref_en_fr\<lparr>UserInfo.TargetLanguage := ''en''\<rparr>) = Some msg
      \<and> setUserInfo env0 (pref_en_fr\<lparr>UserInfo.TargetLanguage := ''en''\<rparr>) world0 =
          (world0, Some \<lparr>ID = ''invalid_user_info'', Message = msg, StatusCode = 400\<rparr>))"
  using setUserInfo_refuses_equal_languages_and_auto_target
          [of "NewUserInfo user0\<lparr>UserInfo.TargetLanguage := ''auto''\<rparr>" env0 world0]
        setUserInfo_refuses_equal_languages_and_auto_target
          [of "pref_en_fr\<lparr>UserInfo.TargetLanguage := ''en''\<rparr>" env0 world0]
  by (simp add: NewUserInfo_def pref_en_fr_def)




text \<open>
  C7. When the poster has no stored preference, or \<^verbatim>\<open>getUserInfo\<close> returns a preference
  that is not activated, the hook returns the post as it came, with an empty rejection
  reason, and changes nothing (no remote request is sent).
\<close>

theorem hook_passes_through_without_active_preference:
  assumes "kv w (UserId post) = None
           \<or> (\<exists>userInfo. getUserInfo e (UserId post) w = Inr userInfo \<and> \<not> Activated userInfo)"
  shows "MessageWillBePosted e post w = (w, Return (post, []))"
  using assms
  by (auto simp: MessageWillBePosted_def getUserInfo_def KVGet_def
           split: option.splits sum.splits)

theorem hook_passes_through_instance:
  "kv world0 (UserId post0) = None
   \<and> MessageWillBePosted env0 post0 world0 = (world0, Return (post0, []))
   \<and> getUserInfo env0 (UserId post0) world_off = Inr pref_off \<and> \<not> Activated pref_off
   \<and> MessageWillBePosted env0 post0 world_off = (world_off, Return (post0, []))"
proof -
  have a: "kv world0 (UserId post0) = None" by (simp add: world0_def)
  have b: "getUserInfo env0 (UserId post0) world_off = Inr pref_off"
    by (simp add: post0_simps getUserInfo_world_off)
  have c: "\<not> Activated pref_off" by (simp add: pref_off_def)
  from a b c show ?thesis
    using hook_passes_through_without_active_preference [of world0 post0 env0]
      hook_passes_through_without_active_preference [of world_off post0 env0]
    by blast
qed

text \<open>
  C8. With a source language other than \<^verbatim>\<open>auto\<close> (the stored preference's for the hook,
  the query parameter for \<^verbatim>\<open>getGo\<close>) the detection service is not asked: the result is
  the same whatever that service would answer, no \<^verbatim>\<open>DetectDominantLanguage\<close> request is
  added to the trace, and the only request that can be added is the translation of the
  text from the given source code, unchanged, to the target.
\<close>

theorem explicit_source_skips_detection:
  "(getUserInfo e (UserId post) w = Inr ui \<and> UserInfo.SourceLanguage ui \<noteq> ''auto''
    \<longrightarrow> MessageWillBePosted (e\<lparr>comprehend_answer := f\<rparr>) post w = MessageWillBePosted e post w
        \<and> (calls (fst (MessageWillBePosted e post w)) = calls w
           \<or> calls (fst (MessageWillBePosted e post w)) =
               calls w @ [TranslateText (Post.Message post) (UserInfo.SourceLanguage ui)
                            (UserInfo.TargetLanguage ui)]))
   \<and> (Get (URL_Query r) ''source'' \<noteq> ''auto''
    \<longrightarrow> getGo (e\<lparr>comprehend_answer := f\<rparr>) r rw w = getGo e r rw w
        \<and> (calls (fst (getGo e r rw w)) = calls w
           \<or> (\<exists>p. GetPost e (Get (URL_Query r) ''post_id'') = Inr p
                \<and> calls (fst (getGo e r rw w)) =
                    calls w @ [TranslateText (Post.Message p) (Get (URL_Query r) ''source'')
                                 (Get (URL_Query r) ''target'')])))"
proof -
  have tt: "\<And>txt s t v. translateText (e\<lparr>comprehend_answer := f\<rparr>) txt s t v = translateText e txt s t v"
    by (simp add: translateText_def)
  have tc: "\<And>txt s t v. calls (fst (translateText e txt s t v)) = calls v
              \<or> calls (fst (translateText e txt s t v)) = calls v @ [TranslateText txt s t]"
    by (auto simp: translateText_def remote_def Let_def split: option.splits)
  have gu: "\<And>u. getUserInfo (e\<lparr>comprehend_answer := f\<rparr>) u w = getUserInfo e u w"
    by (simp add: getUserInfo_def KVGet_def)
  have pw: "\<And>s t. postWithTranslation (e\<lparr>comprehend_answer := f\<rparr>) post s t w
                    = postWithTranslation e post s t w"
    by (auto simp: postWithTranslation_def tt Let_def split: prod.splits outcome.splits sum.splits)
  have pc: "\<And>s t. calls (fst (postWithTranslation e post s t w)) = calls w
              \<or> calls (fst (postWithTranslation e post s t w)) =
                   calls w @ [TranslateText (Post.Message post) s t]"
  proof -
    fix s t
    show "calls (fst (postWithTranslation e post s t w)) = calls w
              \<or> calls (fst (postWithTranslation e post s t w)) =
                   calls w @ [TranslateText (Post.Message post) s t]"
      using tc [of "Post.Message post" s t w]
      by (cases "translateText e (Post.Message post) s t w")
         (auto simp: postWithTranslation_def Let_def split: outcome.splits sum.splits)
  qed
  have gt: "\<And>postID p s t. goTranslate (e\<lparr>comprehend_answer := f\<rparr>) rw postID p s t w
                    = goTranslate e rw postID p s t w"
    by (auto simp: goTranslate_def tt Let_def split: prod.splits outcome.splits sum.splits)
  have gc: "\<And>postID p s t. calls (fst (goTranslate e rw postID p s t w)) = calls w
              \<or> calls (fst (goTranslate e rw postID p s t w)) =
                   calls w @ [TranslateText (Post.Message p) s t]"
  proof -
    fix postID p s t
    show "calls (fst (goTranslate e rw postID p s t w)) = calls w
              \<or> calls (fst (goTranslate e rw postID p s t w)) =
                   calls w @ [TranslateText (Post.Message p) s t]"
      using tc [of "Post.Message p" s t w]
      by (cases "translateText e (Post.Message p) s t w")
         (auto simp: goTranslate_def Let_def split: outcome.splits sum.splits)
  qed
  have hook: "getUserInfo e (UserId post) w = Inr ui \<and> UserInfo.SourceLanguage ui \<noteq> ''auto''
    \<longrightarrow> MessageWillBePosted (e\<lparr>comprehend_answer := f\<rparr>) post w = MessageWillBePosted e post w
        \<and> (calls (fst (MessageWillBePosted e post w)) = calls w
           \<or> calls (fst (MessageWillBePosted e post w)) =
               calls w @ [TranslateText (Post.Message post) (UserInfo.SourceLanguage ui)
                            (UserInfo.TargetLanguage ui)])"
    using pc [of "UserInfo.SourceLanguage ui" "UserInfo.TargetLanguage ui"]
    by (auto simp: MessageWillBePosted_def gu pw autoLanguage_def)
  have go: "Get (URL_Query r) ''source'' \<noteq> ''auto''
    \<longrightarrow> getGo (e\<lparr>comprehend_answer := f\<rparr>) r rw w = getGo e r rw w
        \<and> (calls (fst (getGo e r rw w)) = calls w
           \<or> (\<exists>p. GetPost e (Get (URL_Query r) ''post_id'') = Inr p
                \<and> calls (fst (getGo e r rw w)) =
                    calls w @ [TranslateText (Post.Message p) (Get (URL_Query r) ''source'')
                                 (Get (URL_Query r) ''target'')]))"
  proof (cases "GetPost e (Get (URL_Query r) ''post_id'')")
    case (Inl err)
    then show ?thesis by (simp add: getGo_def Let_def)
  next
    case (Inr p)
    then show ?thesis
      using gc [of "Get (URL_Query r) ''post_id''" p "Get (URL_Query r) ''source''"
                  "Get (URL_Query r) ''target''"]
      by (auto simp: getGo_def Let_def gt)
  qed
  from hook go show ?thesis by blast
qed

theorem explicit_source_skips_detection_instance:
  "getUserInfo env0 (UserId post0) world_en_fr = Inr pref_en_fr
   \<and> UserInfo.SourceLanguage pref_en_fr \<noteq> ''auto''
   \<and> MessageWillBePosted (env0\<lparr>comprehend_answer := (\<lambda>t. None)\<rparr>) post0 world_en_fr
       = MessageWillBePosted env0 post0 world_en_fr
   \<and> calls (fst (MessageWillBePosted env0 post0 world_en_fr))
       = [TranslateText ''Hello'' ''en'' ''fr'']
   \<and> Get (URL_Query (req_go ''en'' ''fr'')) ''source'' \<noteq> ''auto''
   \<and> getGo (env0\<lparr>comprehend_answer := (\<lambda>t. None)\<rparr>) (req_go ''en'' ''fr'') newResponseWriter world0
       = getGo env0 (req_go ''en'' ''fr'') newResponseWriter world0
   \<and> calls (fst (getGo env0 (req_go ''en'' ''fr'') newResponseWriter world0))
       = [TranslateText ''Hello'' ''en'' ''fr'']"
proof -
  have g: "getUserInfo env0 (UserId post0) world_en_fr = Inr pref_en_fr"
    by (simp add: post0_simps getUserInfo_world_en_fr env0_store)
  have s: "UserInfo.SourceLanguage pref_en_fr \<noteq> ''auto''" by (simp add: pref_en_fr_def)
  have h: "calls (fst (MessageWillBePosted env0 post0 world_en_fr))
             = [TranslateText ''Hello'' ''en'' ''fr'']"
    using g by (simp add: MessageWillBePosted_def postWithTranslation_def translateText_env0
                  pref_en_fr_def autoLanguage_def post0_simps calls_world_en_fr Let_def)
  have q: "Get (URL_Query (req_go ''en'' ''fr'')) ''source'' \<noteq> ''auto''"
    by (simp add: req_go_simps)
  have p: "GetPost env0 ''p1'' = Inr post0" by (simp add: env0_def)
  have c: "calls (fst (getGo env0 (req_go ''en'' ''fr'') newResponseWriter world0))
             = [TranslateText ''Hello'' ''en'' ''fr'']"
    by (simp add: getGo_def goTranslate_def req_go_simps user0_nonempty p translateText_env0
          post0_simps world0_def Let_def)
  from explicit_source_skips_detection
         [of env0 post0 world_en_fr pref_en_fr "\<lambda>t. None" "req_go ''en'' ''fr''" newResponseWriter]
       explicit_source_skips_detection
         [of env0 post0 world0 pref_en_fr "\<lambda>t. None" "req_go ''en'' ''fr''" newResponseWriter]
       g s h q c
  show ?thesis by simp
qed




text \<open>
  C10. \<^verbatim>\<open>getUserInfo\<close> returns the error \<^verbatim>\<open>no_record_found\<close> when the read of the store
  fails and when the store has no record for the key; it returns \<^verbatim>\<open>unable_to_unmarshal\<close>
  exactly when the read succeeds, bytes are stored and \<^verbatim>\<open>json.Unmarshal\<close> refuses them.
\<close>

theorem getUserInfo_errors:
  "((KVGet_err e userID \<noteq> None \<or> kv w userID = None)
      \<longrightarrow> getUserInfo e userID w =
            Inl \<lparr>ID = ''no_record_found'', Message = ''No record found.'', StatusCode = 400\<rparr>)
   \<and> ((\<exists>r. getUserInfo e userID w = Inl r \<and> ID r = ''unable_to_unmarshal'')
        \<longleftrightarrow> (\<exists>infoBytes err. KVGet_err e userID = None \<and> kv w userID = Some infoBytes
                \<and> Unmarshal_UserInfo infoBytes = Inl err))"
  by (auto simp: getUserInfo_def KVGet_def apiErrorNoRecordFound_def StatusBadRequest_def
           split: option.splits sum.splits)

theorem getUserInfo_errors_instance:
  "kv world0 user0 = None
   \<and> getUserInfo env0 user0 world0 =
        Inl \<lparr>ID = ''no_record_found'', Message = ''No record found.'', StatusCode = 400\<rparr>
   \<and> getUserInfo (env0\<lparr>KVGet_err := (\<lambda>k. Some \<lparr>Where = ''KVGet'', Id = ''store'', DetailedError = [], StatusCode = 500\<rparr>)\<rparr>)
         user0 world_en_fr =
        Inl \<lparr>ID = ''no_record_found'', Message = ''No record found.'', StatusCode = 400\<rparr>
   \<and> getUserInfo env0 user0 (world0\<lparr>kv := [user0 \<mapsto> ''{'']\<rparr>) =
        Inl \<lparr>ID = ''unable_to_unmarshal'', Message = ''Unable to unmarshal json.'', StatusCode = 400\<rparr>"
proof -
  let ?down = "env0\<lparr>KVGet_err := (\<lambda>k. Some \<lparr>Where = ''KVGet'', Id = ''store'', DetailedError = [], StatusCode = 500\<rparr>)\<rparr>"
  have a: "kv world0 user0 = None" by (simp add: world0_def)
  have b: "KVGet_err ?down user0 \<noteq> None" by simp
  have c: "Unmarshal_UserInfo ''{'' = Inl SyntaxError"
    by (simp add: Unmarshal_UserInfo_def parseFuel_def skipSpace_def isSpace_def eval_nat_numeral)
  have d: "getUserInfo env0 user0 (world0\<lparr>kv := [user0 \<mapsto> ''{'']\<rparr>) =
        Inl \<lparr>ID = ''unable_to_unmarshal'', Message = ''Unable to unmarshal json.'', StatusCode = 400\<rparr>"
    by (simp add: getUserInfo_def KVGet_def env0_store c StatusBadRequest_def)
  from a b d show ?thesis
    using getUserInfo_errors [of env0 user0 world0] getUserInfo_errors [of ?down user0 world_en_fr]
    by simp
qed

end
